theory Spec2Isabelle
  imports Main "HOL-Library.Multiset"
begin

section \<open>Python string and path primitives used by the rules\<close>

text \<open>
  Strings are byte lists. The few library functions the rules call are written out with the
  behaviour of CPython's \<^verbatim>\<open>str.startswith\<close>, \<^verbatim>\<open>str.join\<close>, \<^verbatim>\<open>posixpath.join\<close>,
  \<^verbatim>\<open>shlex.quote\<close> and \<^verbatim>\<open>textwrap.dedent\<close>.
\<close>

abbreviation sq :: char where "sq \<equiv> CHR 0x27"
abbreviation dq :: char where "dq \<equiv> CHR 0x22"
abbreviation nl :: char where "nl \<equiv> CHR 0x0A"
abbreviation tab :: char where "tab \<equiv> CHR 0x09"

definition startswith :: "string \<Rightarrow> string \<Rightarrow> bool" where
  "startswith s p = (take (length p) s = p)"

definition endswith :: "string \<Rightarrow> string \<Rightarrow> bool" where
  "endswith s p = (length p \<le> length s \<and> drop (length s - length p) s = p)"

text \<open>\<^verbatim>\<open>sep.join(xs)\<close>\<close>

fun str_join :: "string \<Rightarrow> string list \<Rightarrow> string" where
  "str_join sep [] = []"
| "str_join sep [x] = x"
| "str_join sep (x # y # ys) = x @ sep @ str_join sep (y # ys)"

text \<open>
  \<^verbatim>\<open>os.path.join(a, b)\<close> on POSIX: an absolute second component replaces the first; otherwise
  the components are concatenated, with a separator unless the first is empty or already ends
  with one.
\<close>

definition os_path_join :: "string \<Rightarrow> string \<Rightarrow> string" where
  "os_path_join a b =
     (if startswith b ''/'' then b
      else if a = [] \<or> endswith a ''/'' then a @ b
      else a @ ''/'' @ b)"

text \<open>
  \<^verbatim>\<open>shlex.quote\<close>: the empty string becomes two single quotes; a string made only of the
  characters \<^verbatim>\<open>[A-Za-z0-9_@%+=:,./-]\<close> is returned unchanged; any other string is wrapped in
  single quotes, each embedded single quote being replaced by \<^verbatim>\<open>'"'"'\<close>.
\<close>

definition safe_chars :: string where
  "safe_chars = ''abcdefghijklmnopqrstuvwxyzABCDEFGHIJKLMNOPQRSTUVWXYZ0123456789_@%+=:,./-''"

definition find_unsafe :: "string \<Rightarrow> bool" where
  "find_unsafe s = (\<exists>c \<in> set s. c \<notin> set safe_chars)"

definition shlex_quote :: "string \<Rightarrow> string" where
  "shlex_quote s =
     (if s = [] then [sq, sq]
      else if \<not> find_unsafe s then s
      else [sq] @ concat (map (\<lambda>c. if c = sq then [sq, dq, sq, dq, sq] else [c]) s) @ [sq])"

text \<open>
  \<^verbatim>\<open>textwrap.dedent\<close>. Lines made only of spaces and tabs are emptied; the margin is the
  longest run of leading spaces and tabs common to all remaining non-empty lines; when the
  margin is non-empty it is removed from the start of every line that begins with it.
\<close>

definition is_ws :: "char \<Rightarrow> bool" where
  "is_ws c = (c = CHR '' '' \<or> c = tab)"

text \<open>\<^verbatim>\<open>text.split("\n")\<close>\<close>

fun split_lines :: "string \<Rightarrow> string list" where
  "split_lines [] = [[]]"
| "split_lines (c # cs) =
     (if c = nl then [] # split_lines cs
      else (case split_lines cs of [] \<Rightarrow> [[c]] | l # ls \<Rightarrow> (c # l) # ls))"

definition blank_whitespace_only :: "string \<Rightarrow> string" where
  "blank_whitespace_only l = (if \<forall>c \<in> set l. is_ws c then [] else l)"

fun common_margin :: "string \<Rightarrow> string \<Rightarrow> string" where
  "common_margin (x # xs) (y # ys) = (if x = y then x # common_margin xs ys else [])"
| "common_margin _ _ = []"

definition margin_step :: "string option \<Rightarrow> string \<Rightarrow> string option" where
  "margin_step margin indent =
     (case margin of
        None \<Rightarrow> Some indent
      | Some m \<Rightarrow>
          if startswith indent m then Some m
          else if startswith m indent then Some indent
          else Some (common_margin m indent))"

definition dedent :: "string \<Rightarrow> string" where
  "dedent text =
     (let ls = map blank_whitespace_only (split_lines text);
          indents = map (takeWhile is_ws) (filter (\<lambda>l. dropWhile is_ws l \<noteq> []) ls);
          margin = foldl margin_step None indents
      in case margin of
           None \<Rightarrow> str_join [nl] ls
         | Some m \<Rightarrow>
             if m \<noteq> []
             then str_join [nl] (map (\<lambda>l. if startswith l m then drop (length m) l else l) ls)
             else str_join [nl] ls)"

text \<open>
  \<^verbatim>\<open>bytes.decode()\<close> raises on input that is not well-formed UTF-8. Strings being byte lists,
  decoding is the identity on well-formed input.
\<close>

definition is_cont :: "nat \<Rightarrow> bool" where
  "is_cont b = (0x80 \<le> b \<and> b \<le> 0xBF)"

fun utf8_valid :: "nat list \<Rightarrow> bool" where
  "utf8_valid [] = True"
| "utf8_valid (b0 # bs) =
     (if b0 < 0x80 then utf8_valid bs
      else if 0xC2 \<le> b0 \<and> b0 \<le> 0xDF then
        (case bs of b1 # r \<Rightarrow> is_cont b1 \<and> utf8_valid r | _ \<Rightarrow> False)
      else if 0xE0 \<le> b0 \<and> b0 \<le> 0xEF then
        (case bs of
           b1 # b2 # r \<Rightarrow>
             (if b0 = 0xE0 then 0xA0 \<le> b1 \<and> b1 \<le> 0xBF
              else if b0 = 0xED then 0x80 \<le> b1 \<and> b1 \<le> 0x9F
              else is_cont b1)
             \<and> is_cont b2 \<and> utf8_valid r
         | _ \<Rightarrow> False)
      else if 0xF0 \<le> b0 \<and> b0 \<le> 0xF4 then
        (case bs of
           b1 # b2 # b3 # r \<Rightarrow>
             (if b0 = 0xF0 then 0x90 \<le> b1 \<and> b1 \<le> 0xBF
              else if b0 = 0xF4 then 0x80 \<le> b1 \<and> b1 \<le> 0x8F
              else is_cont b1)
             \<and> is_cont b2 \<and> is_cont b3 \<and> utf8_valid r
         | _ \<Rightarrow> False)
      else False)"

definition decode :: "string \<Rightarrow> string option" where
  "decode bs = (if utf8_valid (map of_char bs) then Some bs else None)"

section \<open>Data model of \<^verbatim>\<open>adhoc_process_support.py\<close>\<close>

record address =
  spec_path :: string
  target_name :: string

record bash_binary =
  bash_path :: string

text \<open>
  \<^verbatim>\<open>Process\<close>, with the fields the rules set. The digest type is a parameter: digests are
  opaque handles of the engine.
\<close>

record 'd process =
  proc_argv :: "string list"
  proc_description :: string
  proc_env :: "string \<rightharpoonup> string"
  proc_input_digest :: 'd
  proc_output_directories :: "string list"
  proc_output_files :: "string list"
  proc_timeout_seconds :: "int option"
  proc_working_directory :: "string option"
  proc_append_only_caches :: "string \<rightharpoonup> string"
  proc_immutable_input_digests :: "string \<rightharpoonup> 'd"

text \<open>The second argument of \<^verbatim>\<open>_parse_relative_directory\<close> is an \<^verbatim>\<open>Address\<close> or a string.\<close>

datatype relative_to = RelAddress address | RelStr string

section \<open>\<^verbatim>\<open>_parse_relative_directory\<close>\<close>

definition parse_relative_directory :: "string \<Rightarrow> relative_to \<Rightarrow> string" where
  "parse_relative_directory workdir_in relative_to =
     (let reldir = (case relative_to of RelAddress a \<Rightarrow> spec_path a | RelStr s \<Rightarrow> s)
      in if workdir_in = ''.'' then reldir
         else if startswith workdir_in ''./'' then os_path_join reldir (drop 2 workdir_in)
         else if startswith workdir_in ''/'' then drop 1 workdir_in
         else workdir_in)"

section \<open>\<^verbatim>\<open>_output_at_build_root\<close>\<close>

definition output_at_build_root :: "'d process \<Rightarrow> bash_binary \<Rightarrow> 'd process" where
  "output_at_build_root process bash =
     (let working_directory =
            (case proc_working_directory process of None \<Rightarrow> [] | Some w \<Rightarrow> w);
          output_directories =
            (if working_directory \<noteq> []
             then map (os_path_join working_directory) (proc_output_directories process)
             else proc_output_directories process);
          output_files =
            (if working_directory \<noteq> []
             then map (os_path_join working_directory) (proc_output_files process)
             else proc_output_files process);
          cd = (if working_directory \<noteq> []
                then ''cd '' @ shlex_quote working_directory @ '' && '' else []);
          shlexed_argv = str_join '' '' (map shlex_quote (proc_argv process));
          new_argv = [bash_path bash, ''-c'', cd @ shlexed_argv]
      in process\<lparr>proc_argv := new_argv,
                 proc_working_directory := None,
                 proc_output_directories := output_directories,
                 proc_output_files := output_files\<rparr>)"

section \<open>Requests, results and the engine interface\<close>

datatype error =
    ValueError string
  | UnicodeDecodeError
  | ProcessExecutionFailure int
  | EngineError string

record 'd adhoc_process_request =
  apr_description :: string
  apr_address :: address
  apr_working_directory :: string
  apr_root_output_directory :: string
  apr_argv :: "string list"
  apr_timeout :: "int option"
  apr_input_digest :: 'd
  apr_immutable_input_digests :: "(string \<rightharpoonup> 'd) option"
  apr_append_only_caches :: "(string \<rightharpoonup> string) option"
  apr_output_files :: "string list"
  apr_output_directories :: "string list"
  apr_fetch_env_vars :: "string list"
  apr_supplied_env_var_values :: "(string \<rightharpoonup> string) option"
  apr_log_on_process_errors :: "(int \<rightharpoonup> string) option"
  apr_log_output :: bool

record 'd fallible_process_result =
  fpr_exit_code :: int
  fpr_stdout :: string
  fpr_stderr :: string
  fpr_output_digest :: 'd

record 'd process_result =
  pr_stdout :: string
  pr_stderr :: string
  pr_output_digest :: 'd

record 'd adhoc_process_result =
  process_result :: "'d process_result"
  adjusted_digest :: 'd

text \<open>A runnable dependency declaration: \<^verbatim>\<open>runnable(name, address)\<close>.\<close>

record runnable =
  dep_name :: string
  dep_address :: string

text \<open>
  \<^verbatim>\<open>RunInSandboxRequest\<close> (a \<^verbatim>\<open>RunRequest\<close>). The two optional mappings are iterated by
  \<^verbatim>\<open>_safe_update\<close>, so they are kept as item lists in iteration order.
\<close>

record 'd run_in_sandbox_request =
  rr_digest :: 'd
  rr_args :: "string list"
  rr_extra_env :: "(string \<times> string) list"
  rr_immutable_input_digests :: "(string \<times> 'd) list option"
  rr_append_only_caches :: "(string \<times> string) list option"

record 'd runnable_dependencies =
  rd_path_component :: string
  rd_immutable_input_digests :: "string \<rightharpoonup> 'd"
  rd_append_only_caches :: "string \<rightharpoonup> string"

record file_content =
  fc_path :: string
  fc_content :: string
  fc_is_executable :: bool

datatype digest_entry = FileEntry file_content | Directory string

text \<open>
  The engine intrinsics and engine rules the rules request with \<^verbatim>\<open>Get\<close>. They are not part of
  these sources and are taken as parameters: creating, merging and prefix-stripping digests, a
  digest's fingerprint, the directories of a digest's snapshot, fetching environment
  variables, executing a process (which fails when the process cannot be launched or times
  out), and the rule that turns a \<^verbatim>\<open>FallibleProcessResult\<close> with a \<^verbatim>\<open>ProductDescription\<close> into a
  \<^verbatim>\<open>ProcessResult\<close> or raises.
\<close>

record 'd engine =
  empty_digest :: 'd
  create_digest :: "digest_entry list \<Rightarrow> 'd"
  merge_digests :: "'d list \<Rightarrow> 'd"
  remove_prefix :: "'d \<Rightarrow> string \<Rightarrow> 'd"
  fingerprint :: "'d \<Rightarrow> string"
  snapshot_dirs :: "'d \<Rightarrow> string list"
  environment_vars :: "string list \<Rightarrow> (string \<rightharpoonup> string)"
  execute :: "'d process \<Rightarrow> error + 'd fallible_process_result"
  to_process_result :: "'d fallible_process_result \<Rightarrow> string \<Rightarrow> error + 'd process_result"

section \<open>\<^verbatim>\<open>_safe_update\<close> and \<^verbatim>\<open>_runnable_dependency_shim\<close>\<close>

text \<open>
  \<^verbatim>\<open>_safe_update(d1, d2)\<close> walks the items of \<open>d2\<close>; an item whose key is already bound in
  \<open>d1\<close> to a different value raises \<^verbatim>\<open>ValueError("Beep")\<close>, otherwise the item is stored.
\<close>

fun safe_update :: "('k \<rightharpoonup> 'v) \<Rightarrow> ('k \<times> 'v) list \<Rightarrow> error + ('k \<rightharpoonup> 'v)" where
  "safe_update d1 [] = Inr d1"
| "safe_update d1 ((k, v) # d2) =
     (if (case d1 k of None \<Rightarrow> False | Some v' \<Rightarrow> v' \<noteq> v)
      then Inl (ValueError ''Beep'')
      else safe_update (d1(k \<mapsto> v)) d2)"

text \<open>
  Merging a sequence of maps into one accumulator, as the loop of
  \<^verbatim>\<open>_resolve_runnable_dependencies\<close> does for each of its two accumulators.
\<close>

fun safe_update_all :: "('k \<rightharpoonup> 'v) \<Rightarrow> ('k \<times> 'v) list list \<Rightarrow> error + ('k \<rightharpoonup> 'v)" where
  "safe_update_all d1 [] = Inr d1"
| "safe_update_all d1 (d2 # rest) =
     (case safe_update d1 d2 of
        Inl e \<Rightarrow> Inl e
      | Inr d1' \<Rightarrow> safe_update_all d1' rest)"

definition runnable_dependency_shim :: "string \<Rightarrow> string list \<Rightarrow> (string \<times> string) list \<Rightarrow> string" where
  "runnable_dependency_shim bash args extra_env =
     (let binary = str_join '' '' (map shlex_quote args);
          env_str = str_join [nl]
            (map (\<lambda>(key, value). ''export '' @ shlex_quote key @ ''='' @ shlex_quote value)
               extra_env)
      in dedent
           (''        #!'' @ bash @ [nl]
            @ ''        '' @ env_str @ [nl]
            @ ''        exec '' @ binary @ '' '' @ [dq] @ ''$@'' @ [dq] @ [nl]
            @ ''        ''))"

section \<open>\<^verbatim>\<open>_resolve_runnable_dependencies\<close>\<close>

definition incompatible_environments :: error where
  "incompatible_environments =
     ValueError ''One or more runnable dependencies have mutually incompatible environments.''"

text \<open>\<^verbatim>\<open>m or {}\<close> for an optional mapping \<open>m\<close>, as the list of its items.\<close>

definition or_empty :: "'a list option \<Rightarrow> 'a list" where
  "or_empty m = (case m of None \<Rightarrow> [] | Some items \<Rightarrow> items)"

text \<open>The \<^verbatim>\<open>FileContent\<close> appended to \<open>shims\<close> for one declaration and its run request.\<close>

definition shim_file :: "string \<Rightarrow> runnable \<times> 'd run_in_sandbox_request \<Rightarrow> file_content" where
  "shim_file bash = (\<lambda>(dep, r).
     \<lparr>fc_path = dep_name dep,
      fc_content = runnable_dependency_shim bash (rr_args r) (rr_extra_env r),
      fc_is_executable = True\<rparr>)"

text \<open>
  The \<^verbatim>\<open>for dep, runnable in zip(deps, runnables)\<close> loop. Its state is the four accumulators
  \<open>digests\<close>, \<open>shims\<close>, \<open>immutable_input_digests\<close> and \<open>append_only_caches\<close>. A
  \<^verbatim>\<open>ValueError\<close> of either \<^verbatim>\<open>_safe_update\<close> is caught and replaced.
\<close>

type_synonym 'd loop_state =
  "'d list \<times> file_content list \<times> (string \<rightharpoonup> 'd) \<times> (string \<rightharpoonup> string)"

fun resolve_runnable_dependencies_loop ::
  "string \<Rightarrow> (runnable \<times> 'd run_in_sandbox_request) list \<Rightarrow> 'd loop_state
     \<Rightarrow> error + 'd loop_state" where
  "resolve_runnable_dependencies_loop bash [] st = Inr st"
| "resolve_runnable_dependencies_loop bash ((dep, r) # rest)
       (digests, shims, immutable_input_digests, append_only_caches) =
     (let digests' = digests @ [rr_digest r];
          shims' = shims @ [shim_file bash (dep, r)]
      in case safe_update immutable_input_digests (or_empty (rr_immutable_input_digests r)) of
           Inl _ \<Rightarrow> Inl incompatible_environments
         | Inr immutable_input_digests' \<Rightarrow>
             (case safe_update append_only_caches (or_empty (rr_append_only_caches r)) of
                Inl _ \<Rightarrow> Inl incompatible_environments
              | Inr append_only_caches' \<Rightarrow>
                  resolve_runnable_dependencies_loop bash rest
                    (digests', shims', immutable_input_digests', append_only_caches')))"

text \<open>
  The function from the initialisation of the accumulators to its return, for the tuple
  \<open>runnables\<close> that \<^verbatim>\<open>MultiGet\<close> handed back.
\<close>

definition resolve_runnable_dependencies_merge ::
  "'d engine \<Rightarrow> bash_binary \<Rightarrow> runnable list \<Rightarrow> 'd run_in_sandbox_request list
     \<Rightarrow> error + ('d \<times> 'd runnable_dependencies)" where
  "resolve_runnable_dependencies_merge engine bash deps runnables =
     (case resolve_runnable_dependencies_loop (bash_path bash) (zip deps runnables)
             ([], [], Map.empty, Map.empty) of
        Inl e \<Rightarrow> Inl e
      | Inr (digests, shims, immutable_input_digests, append_only_caches) \<Rightarrow>
          (let digest = merge_digests engine digests;
               shim_digest = create_digest engine (map FileEntry shims);
               shim_digest_path = ''shims_'' @ fingerprint engine shim_digest
           in Inr (digest,
                   \<lparr>rd_path_component = shim_digest_path,
                    rd_immutable_input_digests =
                      immutable_input_digests(shim_digest_path \<mapsto> shim_digest),
                    rd_append_only_caches = append_only_caches\<rparr>)))"

text \<open>
  The whole function. \<open>fspt\<close> is bound to a one-element tuple holding the engine's
  \<^verbatim>\<open>FieldSetsPerTarget\<close> answer, and one \<^verbatim>\<open>RunInSandboxRequest\<close> is requested per element
  of \<open>fspt\<close>; the answer of the engine to that request is the parameter \<open>get_run\<close>.
\<close>

definition resolve_runnable_dependencies ::
  "'d engine \<Rightarrow> ('f \<Rightarrow> 'd run_in_sandbox_request) \<Rightarrow> 'f \<Rightarrow> bash_binary \<Rightarrow> runnable list
     \<Rightarrow> error + ('d \<times> 'd runnable_dependencies)" where
  "resolve_runnable_dependencies engine get_run field_sets_per_target bash deps =
     (let fspt = [field_sets_per_target];
          runnables = map get_run fspt
      in resolve_runnable_dependencies_merge engine bash deps runnables)"

section \<open>\<^verbatim>\<open>prepare_adhoc_process\<close> and \<^verbatim>\<open>run_adhoc_process\<close>\<close>

definition prepare_adhoc_process ::
  "'d engine \<Rightarrow> 'd adhoc_process_request \<Rightarrow> bash_binary \<Rightarrow> 'd process" where
  "prepare_adhoc_process engine request bash =
     (let description = apr_description request;
          working_directory =
            parse_relative_directory (apr_working_directory request)
              (RelAddress (apr_address request));
          supplied_env_vars =
            (case apr_supplied_env_var_values request of None \<Rightarrow> Map.empty | Some m \<Rightarrow> m);
          append_only_caches =
            (case apr_append_only_caches request of None \<Rightarrow> Map.empty | Some m \<Rightarrow> m);
          immutable_input_digests =
            (case apr_immutable_input_digests request of None \<Rightarrow> Map.empty | Some m \<Rightarrow> m);
          extra_env = environment_vars engine (apr_fetch_env_vars request);
          command_env = (Map.empty ++ extra_env) ++ supplied_env_vars;
          work_dir =
            (if working_directory = []
                \<or> working_directory \<in> set (snapshot_dirs engine (apr_input_digest request))
             then empty_digest engine
             else create_digest engine [Directory working_directory]);
          input_digest = merge_digests engine [apr_input_digest request, work_dir];
          proc =
            \<lparr>proc_argv = apr_argv request,
             proc_description = ''Running '' @ description,
             proc_env = command_env,
             proc_input_digest = input_digest,
             proc_output_directories = apr_output_directories request,
             proc_output_files = apr_output_files request,
             proc_timeout_seconds = apr_timeout request,
             proc_working_directory = Some working_directory,
             proc_append_only_caches = append_only_caches,
             proc_immutable_input_digests = immutable_input_digests\<rparr>
      in output_at_build_root proc bash)"

datatype log_level = ERROR | WARNING | INFO

type_synonym log_record = "log_level \<times> string"

text \<open>
  The \<^verbatim>\<open>if request.log_output\<close> block: non-empty captured streams are decoded and logged;
  the messages logged so far are returned together with the decoding error, if any.
\<close>

definition log_process_output ::
  "bool \<Rightarrow> 'd process_result \<Rightarrow> log_record list \<times> error option" where
  "log_process_output log_output result =
     (if log_output then
        (case (if pr_stdout result \<noteq> [] then
                 (case decode (pr_stdout result) of
                    None \<Rightarrow> ([], Some UnicodeDecodeError)
                  | Some s \<Rightarrow> ([(INFO, s)], None))
               else ([], None)) of
           (log1, Some e) \<Rightarrow> (log1, Some e)
         | (log1, None) \<Rightarrow>
             if pr_stderr result \<noteq> [] then
               (case decode (pr_stderr result) of
                  None \<Rightarrow> (log1, Some UnicodeDecodeError)
                | Some s \<Rightarrow> (log1 @ [(WARNING, s)], None))
             else (log1, None))
      else ([], None))"

text \<open>
  The lookup of \<open>log_on_process_errors\<close> at the observed exit code: a configured, non-empty
  message is logged at error level.
\<close>

definition log_on_error :: "'d adhoc_process_request \<Rightarrow> int \<Rightarrow> log_record list" where
  "log_on_error request exit_code =
     (let log_on_errors =
            (case apr_log_on_process_errors request of None \<Rightarrow> Map.empty | Some m \<Rightarrow> m);
          error_to_log = log_on_errors exit_code
      in case error_to_log of
           None \<Rightarrow> []
         | Some msg \<Rightarrow> if msg \<noteq> [] then [(ERROR, msg)] else [])"

text \<open>
  \<^verbatim>\<open>run_adhoc_process\<close> returns the records it logged and either the error it raised or its
  \<^verbatim>\<open>AdhocProcessResult\<close>. The only use it makes of the exit code is the log lookup; the
  conversion to a \<^verbatim>\<open>ProcessResult\<close> is the engine's.
\<close>

definition run_adhoc_process ::
  "'d engine \<Rightarrow> bash_binary \<Rightarrow> 'd adhoc_process_request
     \<Rightarrow> log_record list \<times> (error + 'd adhoc_process_result)" where
  "run_adhoc_process engine bash request =
     (let process = prepare_adhoc_process engine request bash
      in case execute engine process of
           Inl e \<Rightarrow> ([], Inl e)
         | Inr fallible_result \<Rightarrow>
             (let log0 = log_on_error request (fpr_exit_code fallible_result)
              in case to_process_result engine fallible_result (apr_description request) of
                   Inl e \<Rightarrow> (log0, Inl e)
                 | Inr result \<Rightarrow>
                     (case log_process_output (apr_log_output request) result of
                        (log1, Some e) \<Rightarrow> (log0 @ log1, Inl e)
                      | (log1, None) \<Rightarrow>
                          (let working_directory =
                                 parse_relative_directory (apr_working_directory request)
                                   (RelAddress (apr_address request));
                               root_output_directory =
                                 parse_relative_directory (apr_root_output_directory request)
                                   (RelStr working_directory);
                               adjusted =
                                 remove_prefix engine (pr_output_digest result)
                                   root_output_directory
                           in (log0 @ log1,
                               Inr \<lparr>process_result = result, adjusted_digest = adjusted\<rparr>)))))"

text \<open>
  Modelled from the spec: \<^verbatim>\<open>RemovePrefix\<close> is an engine intrinsic that is not among the
  sources. The spec describes it as ``stripping a path prefix to produce a new digest rooted
  one level up''. A digest is represented here by the list of its file paths, and the prefix
  is read as a directory: this is the prefix with its trailing separator.
\<close>

definition directory_prefix :: "string \<Rightarrow> string" where
  "directory_prefix prefix =
     (if prefix = [] \<or> endswith prefix ''/'' then prefix else prefix @ ''/'')"

text \<open>
  Modelled from the spec: \<^verbatim>\<open>RemovePrefix\<close> on one file path (the intrinsic is not among the
  sources). The directory prefix is removed from a path that lies under it.
\<close>

definition remove_prefix_path :: "string \<Rightarrow> string \<Rightarrow> string" where
  "remove_prefix_path prefix p =
     (if startswith p (directory_prefix prefix)
      then drop (length (directory_prefix prefix)) p else p)"

text \<open>
  Modelled from the spec: \<^verbatim>\<open>RemovePrefix(digest, prefix)\<close> on a digest given by its file paths
  (the intrinsic is not among the sources).
\<close>

definition remove_prefix_paths :: "string list \<Rightarrow> string \<Rightarrow> string list" where
  "remove_prefix_paths digest prefix = map (remove_prefix_path prefix) digest"

section \<open>Data model and \<^verbatim>\<open>_find_what_to_run\<close> of \<^verbatim>\<open>run.py\<close>\<close>

text \<open>
  A field of a field-set either mixes in \<^verbatim>\<open>SecondaryOwnerMixin\<close> or does not; a field-set is
  its class name and the fields \<^verbatim>\<open>dataclasses.astuple\<close> enumerates.
\<close>

datatype field = PlainField string | SecondaryOwnerField string

record field_set =
  fs_class :: string
  fs_fields :: "field list"

record target =
  tgt_address :: string

record ranked_field_sets =
  primary :: "field_set list"
  secondary :: "field_set list"

type_synonym targets_to_field_sets = "(target \<times> field_set list) list"

datatype run_error =
    TooManyTargetsException targets_to_field_sets string
  | AmbiguousImplementationsException target "field_set list" string
  | AssertionError
  | IndexError

fun is_secondary_owner :: "field \<Rightarrow> bool" where
  "is_secondary_owner (SecondaryOwnerField _) = True"
| "is_secondary_owner (PlainField _) = False"

text \<open>The predicate given to \<^verbatim>\<open>_partition\<close>: no field is a \<^verbatim>\<open>SecondaryOwnerMixin\<close>.\<close>

definition is_primary_field_set :: "field_set \<Rightarrow> bool" where
  "is_primary_field_set fs = (\<not> (\<exists>f \<in> set (fs_fields fs). is_secondary_owner f))"

definition partition_by :: "'a list \<Rightarrow> ('a \<Rightarrow> bool) \<Rightarrow> 'a list \<times> 'a list" where
  "partition_by iterable pred = (filter pred iterable, filter (\<lambda>x. \<not> pred x) iterable)"

definition rank_field_sets :: "field_set list \<Rightarrow> ranked_field_sets" where
  "rank_field_sets field_sets =
     (case partition_by field_sets is_primary_field_set of
        (p, s) \<Rightarrow> \<lparr>primary = p, secondary = s\<rparr>)"

text \<open>
  The loop over the items of the mapping, with the two variables \<open>primary_target\<close> and
  \<open>primary_target_rfs\<close> as its state.
\<close>

fun find_what_to_run_loop ::
  "targets_to_field_sets \<Rightarrow> string \<Rightarrow> targets_to_field_sets
     \<Rightarrow> target option \<Rightarrow> ranked_field_sets option
     \<Rightarrow> run_error + (target option \<times> ranked_field_sets option)" where
  "find_what_to_run_loop mapping goal_description [] primary_target primary_target_rfs =
     Inr (primary_target, primary_target_rfs)"
| "find_what_to_run_loop mapping goal_description ((tgt, field_sets) # rest)
       primary_target primary_target_rfs =
     (let rfs = rank_field_sets field_sets
      in case (primary_target, primary_target_rfs) of
           (Some pt, Some prfs) \<Rightarrow>
             if primary rfs \<noteq> [] \<and> primary prfs = []
             then find_what_to_run_loop mapping goal_description rest (Some tgt) (Some rfs)
             else if (primary rfs \<noteq> [] \<and> primary prfs \<noteq> [])
                       \<or> (secondary rfs \<noteq> [] \<and> secondary prfs \<noteq> [])
             then Inl (TooManyTargetsException mapping goal_description)
             else find_what_to_run_loop mapping goal_description rest
                    primary_target primary_target_rfs
         | _ \<Rightarrow> find_what_to_run_loop mapping goal_description rest (Some tgt) (Some rfs))"

text \<open>
  \<^verbatim>\<open>_find_what_to_run\<close>, for the mapping the engine returned for the root targets.
\<close>

definition find_what_to_run ::
  "targets_to_field_sets \<Rightarrow> string \<Rightarrow> run_error + (field_set \<times> target)" where
  "find_what_to_run mapping goal_description =
     (case find_what_to_run_loop mapping goal_description mapping None None of
        Inl e \<Rightarrow> Inl e
      | Inr (None, _) \<Rightarrow> Inl AssertionError
      | Inr (Some primary_target, None) \<Rightarrow> Inl AssertionError
      | Inr (Some primary_target, Some primary_target_rfs) \<Rightarrow>
          (let field_sets =
                 (if primary primary_target_rfs \<noteq> [] then primary primary_target_rfs
                  else secondary primary_target_rfs)
           in if length field_sets > 1
              then Inl (AmbiguousImplementationsException primary_target
                          (primary primary_target_rfs @ secondary primary_target_rfs)
                          goal_description)
              else (case field_sets of
                      [] \<Rightarrow> Inl IndexError
                    | fs # _ \<Rightarrow> Inr (fs, primary_target))))"

section \<open>Concrete inputs\<close>

text \<open>
  The inputs at which the statements below are evaluated. The engine instance represents a
  digest by the list of its file paths.
\<close>

definition app_address :: address where
  "app_address = \<lparr>spec_path = ''src/app'', target_name = ''cmd''\<rparr>"

definition echo_process :: "unit process" where
  "echo_process =
     \<lparr>proc_argv = [''echo'', ''hi''], proc_description = ''Running echo'',
      proc_env = Map.empty, proc_input_digest = (),
      proc_output_directories = [''dist''], proc_output_files = [''out.txt'', ''/abs/log.txt''],
      proc_timeout_seconds = None,
      proc_working_directory = Some (parse_relative_directory ''.'' (RelAddress app_address)),
      proc_append_only_caches = Map.empty, proc_immutable_input_digests = Map.empty\<rparr>"

definition caches_a :: "(string \<times> string) list list" where
  "caches_a =
     [[(''pip_cache'', ''.cache/pip'')],
      [(''jdk'', ''.cache/jdk''), (''pip_cache'', ''.cache/pip'')]]"

definition caches_b :: "(string \<times> string) list list" where
  "caches_b =
     [[(''jdk'', ''.cache/jdk''), (''pip_cache'', ''.cache/pip'')],
      [(''pip_cache'', ''.cache/pip'')]]"

text \<open>
  Two behaviours of the engine's conversion rule: one raises on a nonzero exit code, the other
  returns a \<^verbatim>\<open>ProcessResult\<close> for every exit code.
\<close>

definition strict_conversion ::
  "'d fallible_process_result \<Rightarrow> string \<Rightarrow> error + 'd process_result" where
  "strict_conversion fallible_result description =
     (if fpr_exit_code fallible_result = 0
      then Inr \<lparr>pr_stdout = fpr_stdout fallible_result,
                pr_stderr = fpr_stderr fallible_result,
                pr_output_digest = fpr_output_digest fallible_result\<rparr>
      else Inl (ProcessExecutionFailure (fpr_exit_code fallible_result)))"

definition lenient_conversion ::
  "'d fallible_process_result \<Rightarrow> string \<Rightarrow> error + 'd process_result" where
  "lenient_conversion fallible_result description =
     Inr \<lparr>pr_stdout = fpr_stdout fallible_result,
          pr_stderr = fpr_stderr fallible_result,
          pr_output_digest = fpr_output_digest fallible_result\<rparr>"

text \<open>
  An engine whose processes exit with code 0, print \<^verbatim>\<open>generated\<close> and produce exactly their
  declared output files.
\<close>

definition paths_engine :: "string list engine" where
  "paths_engine =
     \<lparr>empty_digest = [],
      create_digest = map (\<lambda>e. case e of FileEntry f \<Rightarrow> fc_path f | Directory d \<Rightarrow> d),
      merge_digests = concat,
      remove_prefix = remove_prefix_paths,
      fingerprint = str_join ''+'',
      snapshot_dirs = (\<lambda>d. []),
      environment_vars = (\<lambda>names. Map.empty),
      execute = (\<lambda>p. Inr \<lparr>fpr_exit_code = 0, fpr_stdout = ''generated'', fpr_stderr = [],
                            fpr_output_digest = proc_output_files p\<rparr>),
      to_process_result = strict_conversion\<rparr>"

text \<open>
  The same engine with processes that exit with code 3 and print the given bytes, under the
  given conversion rule.
\<close>

definition exit3_engine ::
  "(string list fallible_process_result \<Rightarrow> string \<Rightarrow> error + string list process_result)
     \<Rightarrow> string \<Rightarrow> string list engine" where
  "exit3_engine conversion out =
     paths_engine
       \<lparr>execute := (\<lambda>p. Inr \<lparr>fpr_exit_code = 3, fpr_stdout = out, fpr_stderr = [],
                               fpr_output_digest = proc_output_files p\<rparr>),
        to_process_result := conversion\<rparr>"

definition bin_bash :: bash_binary where
  "bin_bash = \<lparr>bash_path = ''/bin/bash''\<rparr>"

definition echo_request :: "string list adhoc_process_request" where
  "echo_request =
     \<lparr>apr_description = ''echo'', apr_address = app_address,
      apr_working_directory = ''.'', apr_root_output_directory = ''.'',
      apr_argv = [''echo'', ''hi''], apr_timeout = None, apr_input_digest = [],
      apr_immutable_input_digests = None, apr_append_only_caches = None,
      apr_output_files = [''out.txt''], apr_output_directories = [],
      apr_fetch_env_vars = [], apr_supplied_env_var_values = None,
      apr_log_on_process_errors = Some [3 \<mapsto> ''echo failed''],
      apr_log_output = True\<rparr>"

definition fmt_dep :: runnable where
  "fmt_dep = \<lparr>dep_name = ''fmt'', dep_address = '':formatter''\<rparr>"

definition lint_dep :: runnable where
  "lint_dep = \<lparr>dep_name = ''lint'', dep_address = '':linter''\<rparr>"

definition fmt_run :: "string list run_in_sandbox_request" where
  "fmt_run =
     \<lparr>rr_digest = [''bin/fmt''], rr_args = [''/bin/fmt'', ''-w''], rr_extra_env = [],
      rr_immutable_input_digests = Some [(''shims_fmt'', [''other/tool''])],
      rr_append_only_caches = Some [(''cache'', ''.cache/a'')]\<rparr>"

definition lint_run :: "string list run_in_sandbox_request" where
  "lint_run =
     \<lparr>rr_digest = [''bin/lint''], rr_args = [''/bin/lint''], rr_extra_env = [(''X'', ''1'')],
      rr_immutable_input_digests = None,
      rr_append_only_caches = Some [(''cache'', ''.cache/b'')]\<rparr>"

definition source_fs :: field_set where
  "source_fs = \<lparr>fs_class = ''PythonSourceFieldSet'', fs_fields = [PlainField ''source'']\<rparr>"

definition pex_fs :: field_set where
  "pex_fs = \<lparr>fs_class = ''PexBinaryFieldSet'',
              fs_fields = [PlainField ''output_path'', SecondaryOwnerField ''entry_point'']\<rparr>"

definition deploy_jar_fs :: field_set where
  "deploy_jar_fs = \<lparr>fs_class = ''DeployJarFieldSet'', fs_fields = [SecondaryOwnerField ''main'']\<rparr>"

definition app_target :: target where
  "app_target = \<lparr>tgt_address = ''src/app:app''\<rparr>"

definition jar_target :: target where
  "jar_target = \<lparr>tgt_address = ''src/app:jar''\<rparr>"

text \<open>What those engines report for the process of \<open>echo_request\<close>.\<close>

definition exit3_result :: "string list fallible_process_result" where
  "exit3_result =
     \<lparr>fpr_exit_code = 3, fpr_stdout = ''generated'', fpr_stderr = [],
      fpr_output_digest = [''src/app/out.txt'']\<rparr>"

definition exit0_result :: "string list fallible_process_result" where
  "exit0_result =
     \<lparr>fpr_exit_code = 0, fpr_stdout = ''generated'', fpr_stderr = [],
      fpr_output_digest = [''src/app/out.txt'']\<rparr>"

section \<open>Merging maps with \<^verbatim>\<open>_safe_update\<close>\<close>

text \<open>
  The graph of the accumulator grows by exactly the items stored, and a merge succeeds
  precisely when the union of the graphs is single-valued.
\<close>

lemma graph_upd_agree:
  "d k = None \<or> d k = Some v \<Longrightarrow> Map.graph (d(k \<mapsto> v)) = insert (k, v) (Map.graph d)"
  by (auto simp: Map.graph_def split: if_splits)

lemma graph_eqD:
  assumes "Map.graph m = Map.graph m'"
  shows "m = m'"
proof (rule ext)
  fix x
  have *: "m x = Some b \<longleftrightarrow> m' x = Some b" for b
    using assms by (metis in_graphD in_graphI)
  show "m x = m' x"
  proof (cases "m x")
    case None
    then show ?thesis using * by (cases "m' x") auto
  next
    case (Some v)
    then show ?thesis using * by simp
  qed
qed

lemma safe_update_Cons_ok:
  "d k = None \<or> d k = Some v \<Longrightarrow> safe_update d ((k, v) # xs) = safe_update (d(k \<mapsto> v)) xs"
  by auto

lemma safe_update_Cons_bad:
  "d k = Some v' \<Longrightarrow> v' \<noteq> v \<Longrightarrow> safe_update d ((k, v) # xs) = Inl (ValueError ''Beep'')"
  by simp

lemma safe_update_Inl: "safe_update d xs = Inl e \<Longrightarrow> e = ValueError ''Beep''"
proof (induction xs arbitrary: d)
  case Nil
  then show ?case by simp
next
  case (Cons x xs)
  obtain k v where x: "x = (k, v)" by (cases x)
  show ?case
  proof (cases "d k = None \<or> d k = Some v")
    case True
    with Cons.prems x have "safe_update (d(k \<mapsto> v)) xs = Inl e"
      by (simp only: safe_update_Cons_ok)
    then show ?thesis by (rule Cons.IH)
  next
    case False
    then obtain v' where "d k = Some v'" "v' \<noteq> v" by auto
    with Cons.prems x show ?thesis by (simp only: safe_update_Cons_bad) simp
  qed
qed

lemma safe_update_graph:
  "safe_update d xs = Inr r \<Longrightarrow> Map.graph r = Map.graph d \<union> set xs"
proof (induction xs arbitrary: d)
  case Nil
  then show ?case by simp
next
  case (Cons x xs)
  obtain k v where x: "x = (k, v)" by (cases x)
  show ?case
  proof (cases "d k = None \<or> d k = Some v")
    case True
    with Cons.prems x have "safe_update (d(k \<mapsto> v)) xs = Inr r"
      by (simp only: safe_update_Cons_ok)
    then have "Map.graph r = Map.graph (d(k \<mapsto> v)) \<union> set xs" by (rule Cons.IH)
    also have "Map.graph (d(k \<mapsto> v)) = insert (k, v) (Map.graph d)"
      using True by (rule graph_upd_agree)
    finally show ?thesis using x by simp
  next
    case False
    then obtain v' where "d k = Some v'" "v' \<noteq> v" by auto
    with Cons.prems x show ?thesis by (simp only: safe_update_Cons_bad) simp
  qed
qed

lemma single_valued_graph: "single_valued (Map.graph d)"
  by (auto simp: single_valued_def Map.graph_def)

lemma safe_update_succeeds_iff:
  "(\<exists>r. safe_update d xs = Inr r) \<longleftrightarrow> single_valued (Map.graph d \<union> set xs)"
proof (induction xs arbitrary: d)
  case Nil
  then show ?case by (simp add: single_valued_graph)
next
  case (Cons x xs)
  obtain k v where x: "x = (k, v)" by (cases x)
  show ?case
  proof (cases "d k = None \<or> d k = Some v")
    case True
    have "(\<exists>r. safe_update d (x # xs) = Inr r) \<longleftrightarrow> (\<exists>r. safe_update (d(k \<mapsto> v)) xs = Inr r)"
      using True x by (simp only: safe_update_Cons_ok)
    also have "\<dots> \<longleftrightarrow> single_valued (Map.graph (d(k \<mapsto> v)) \<union> set xs)"
      by (rule Cons.IH)
    also have "Map.graph (d(k \<mapsto> v)) \<union> set xs = Map.graph d \<union> set (x # xs)"
      using graph_upd_agree [of d k v] True x by simp
    finally show ?thesis .
  next
    case False
    then obtain v' where v': "d k = Some v'" "v' \<noteq> v" by auto
    then have "safe_update d (x # xs) = Inl (ValueError ''Beep'')"
      using x by simp
    moreover have "\<not> single_valued (Map.graph d \<union> set (x # xs))"
    proof
      assume sv: "single_valued (Map.graph d \<union> set (x # xs))"
      have "(k, v') \<in> Map.graph d \<union> set (x # xs)" using v' by (simp add: in_graphI)
      moreover have "(k, v) \<in> Map.graph d \<union> set (x # xs)" using x by simp
      ultimately have "v' = v" using sv by (meson single_valuedD)
      with v' show False by simp
    qed
    ultimately show ?thesis by simp
  qed
qed

lemma safe_update_all_Inl: "safe_update_all d ms = Inl e \<Longrightarrow> e = ValueError ''Beep''"
  by (induction d ms rule: safe_update_all.induct) (auto split: sum.splits dest: safe_update_Inl)

lemma safe_update_all_graph:
  "safe_update_all d ms = Inr r \<Longrightarrow> Map.graph r = Map.graph d \<union> \<Union> (set ` set ms)"
proof (induction d ms rule: safe_update_all.induct)
  case (1 d1)
  then show ?case by simp
next
  case (2 d1 d2 rest)
  from "2.prems" obtain d1' where s: "safe_update d1 d2 = Inr d1'"
    and r: "safe_update_all d1' rest = Inr r"
    by (auto split: sum.splits)
  from "2.IH" [OF s r] safe_update_graph [OF s] show ?case by auto
qed

lemma safe_update_all_succeeds_iff:
  "(\<exists>r. safe_update_all d ms = Inr r) \<longleftrightarrow> single_valued (Map.graph d \<union> \<Union> (set ` set ms))"
proof (induction d ms rule: safe_update_all.induct)
  case (1 d1)
  then show ?case by (simp add: single_valued_graph)
next
  case (2 d1 d2 rest)
  show ?case
  proof (cases "safe_update d1 d2")
    case (Inl e)
    then have "\<not> single_valued (Map.graph d1 \<union> set d2)"
      using safe_update_succeeds_iff [of d1 d2] by auto
    moreover have "Map.graph d1 \<union> set d2 \<subseteq> Map.graph d1 \<union> \<Union> (set ` set (d2 # rest))"
      by auto
    ultimately have "\<not> single_valued (Map.graph d1 \<union> \<Union> (set ` set (d2 # rest)))"
      using single_valued_subset by blast
    with Inl show ?thesis by simp
  next
    case (Inr d1')
    have "Map.graph d1' \<union> \<Union> (set ` set rest) = Map.graph d1 \<union> \<Union> (set ` set (d2 # rest))"
      using safe_update_graph [OF Inr] by auto
    with "2.IH" [OF Inr] Inr show ?thesis by simp
  qed
qed

lemma safe_update_all_set_cong:
  assumes "set ms = set ms'"
  shows "safe_update_all d ms = safe_update_all d ms'"
proof (cases "safe_update_all d ms")
  case (Inl e)
  then have "\<not> (\<exists>r. safe_update_all d ms' = Inr r)"
    using safe_update_all_succeeds_iff [of d ms] safe_update_all_succeeds_iff [of d ms'] assms
    by auto
  then obtain e' where "safe_update_all d ms' = Inl e'"
    by (cases "safe_update_all d ms'") auto
  with Inl show ?thesis by (auto dest!: safe_update_all_Inl)
next
  case (Inr r)
  then have "\<exists>r'. safe_update_all d ms' = Inr r'"
    using safe_update_all_succeeds_iff [of d ms] safe_update_all_succeeds_iff [of d ms'] assms
    by auto
  then obtain r' where r': "safe_update_all d ms' = Inr r'" by blast
  have "Map.graph r = Map.graph r'"
    using safe_update_all_graph [OF Inr] safe_update_all_graph [OF r'] assms by simp
  then have "r = r'" by (rule graph_eqD)
  with Inr r' show ?thesis by simp
qed

text \<open>
  Claim C1. Merging any finite sequence of maps into an empty accumulator succeeds exactly
  when no key is bound to two unequal values across the maps (equal values under a shared key
  are no conflict); on success the result is the key-wise union of the maps; and both the
  outcome and the resulting map are the same for every order of the maps.
\<close>

theorem safe_update_all_merge:
  "((\<exists>r. safe_update_all Map.empty ms = Inr r) \<longleftrightarrow>
      (\<forall>m \<in> set ms. \<forall>m' \<in> set ms. \<forall>k v v'. (k, v) \<in> set m \<and> (k, v') \<in> set m' \<longrightarrow> v = v'))
   \<and> (\<forall>r. safe_update_all Map.empty ms = Inr r \<longrightarrow>
         (\<forall>k v. r k = Some v \<longleftrightarrow> (\<exists>m \<in> set ms. (k, v) \<in> set m)))
   \<and> (\<forall>ms'. mset ms' = mset ms \<longrightarrow>
         safe_update_all Map.empty ms' = safe_update_all Map.empty ms)"
proof (intro conjI allI impI)
  have "single_valued (\<Union> (set ` set ms)) \<longleftrightarrow>
      (\<forall>m \<in> set ms. \<forall>m' \<in> set ms. \<forall>k v v'. (k, v) \<in> set m \<and> (k, v') \<in> set m' \<longrightarrow> v = v')"
    unfolding single_valued_def by blast
  then show "(\<exists>r. safe_update_all Map.empty ms = Inr r) \<longleftrightarrow>
      (\<forall>m \<in> set ms. \<forall>m' \<in> set ms. \<forall>k v v'. (k, v) \<in> set m \<and> (k, v') \<in> set m' \<longrightarrow> v = v')"
    using safe_update_all_succeeds_iff [of Map.empty ms] by simp
next
  fix r k v
  assume "safe_update_all Map.empty ms = Inr r"
  then have "Map.graph r = \<Union> (set ` set ms)"
    using safe_update_all_graph by fastforce
  then show "r k = Some v \<longleftrightarrow> (\<exists>m \<in> set ms. (k, v) \<in> set m)"
    by (auto simp: Map.graph_def)
next
  fix ms'
  assume "mset ms' = mset ms"
  then have "set ms' = set ms" by (rule mset_eq_setD)
  then show "safe_update_all Map.empty ms' = safe_update_all Map.empty ms"
    by (rule safe_update_all_set_cong)
qed

text \<open>
  Witness for C1: two orders of the same append-only-cache maps, which share the key
  \<^verbatim>\<open>pip_cache\<close> with equal values, merge to the same union.
\<close>

theorem safe_update_all_merge_witness:
  "safe_update_all Map.empty caches_b = safe_update_all Map.empty caches_a
   \<and> (\<exists>r. safe_update_all Map.empty caches_a = Inr r
          \<and> r ''jdk'' = Some ''.cache/jdk'' \<and> r ''pip_cache'' = Some ''.cache/pip'')"
proof -
  have perm: "mset caches_b = mset caches_a"
    by (simp add: caches_a_def caches_b_def)
  have ok: "\<forall>m \<in> set caches_a. \<forall>m' \<in> set caches_a. \<forall>k v v'.
      (k, v) \<in> set m \<and> (k, v') \<in> set m' \<longrightarrow> v = v'"
    by (auto simp: caches_a_def)
  have jdk: "\<exists>m \<in> set caches_a. (''jdk'', ''.cache/jdk'') \<in> set m"
    by (simp add: caches_a_def)
  have pip: "\<exists>m \<in> set caches_a. (''pip_cache'', ''.cache/pip'') \<in> set m"
    by (simp add: caches_a_def)
  note merge = safe_update_all_merge [of caches_a]
  from merge have iff: "(\<exists>r. safe_update_all Map.empty caches_a = Inr r) \<longleftrightarrow>
      (\<forall>m \<in> set caches_a. \<forall>m' \<in> set caches_a. \<forall>k v v'.
         (k, v) \<in> set m \<and> (k, v') \<in> set m' \<longrightarrow> v = v')"
    by (rule conjunct1)
  from merge have un: "\<forall>r. safe_update_all Map.empty caches_a = Inr r \<longrightarrow>
      (\<forall>k v. r k = Some v \<longleftrightarrow> (\<exists>m \<in> set caches_a. (k, v) \<in> set m))"
    by (rule conjunct1 [OF conjunct2])
  from merge have ord: "\<forall>ms'. mset ms' = mset caches_a \<longrightarrow>
      safe_update_all Map.empty ms' = safe_update_all Map.empty caches_a"
    by (rule conjunct2 [OF conjunct2])
  from iff ok have "\<exists>r. safe_update_all Map.empty caches_a = Inr r"
    by (rule iffD2)
  then obtain r where r: "safe_update_all Map.empty caches_a = Inr r" ..
  have keys: "\<forall>k v. r k = Some v \<longleftrightarrow> (\<exists>m \<in> set caches_a. (k, v) \<in> set m)"
    by (rule mp [OF spec [OF un] r])
  have "safe_update_all Map.empty caches_b = safe_update_all Map.empty caches_a"
    by (rule mp [OF spec [OF ord] perm])
  moreover from keys jdk have "r ''jdk'' = Some ''.cache/jdk''" by (simp only:)
  moreover from keys pip have "r ''pip_cache'' = Some ''.cache/pip''" by (simp only:)
  ultimately show ?thesis using r by (intro conjI exI [of _ r])
qed


section \<open>Working directories and the rewrite to the build root\<close>

lemma startswith_append [simp]: "startswith (p @ s) p"
  by (simp add: startswith_def)

lemma os_path_join_absolute: "startswith d ''/'' \<Longrightarrow> os_path_join w d = d"
  by (simp add: os_path_join_def)

lemma os_path_join_relative: "\<not> startswith d ''/'' \<Longrightarrow> startswith (os_path_join w d) w"
  by (simp add: os_path_join_def)

text \<open>
  Claim C6, as stated, fails at a working directory that starts with two separators, and at
  \<^verbatim>\<open>./\<close> followed by an absolute path: one separator is stripped, or \<^verbatim>\<open>os.path.join\<close> returns
  its absolute second component, so the result is \<^verbatim>\<open>/etc\<close> and the prepared process changes
  into that filesystem-absolute directory.
\<close>

theorem parse_relative_directory_absolute_counterexample:
  "parse_relative_directory ''//etc'' (RelAddress app_address) = ''/etc''
   \<and> parse_relative_directory ''.//etc'' (RelAddress app_address) = ''/etc''
   \<and> proc_argv (prepare_adhoc_process paths_engine
         (echo_request\<lparr>apr_working_directory := ''//etc''\<rparr>) bin_bash) ! 2
       = ''cd /etc && echo hi''"
  by (simp add: parse_relative_directory_def startswith_def os_path_join_def app_address_def
      prepare_adhoc_process_def output_at_build_root_def echo_request_def paths_engine_def
      shlex_quote_def find_unsafe_def safe_chars_def Let_def)

text \<open>
  Claim C6, amended. For every working-directory string and owning address,
  \<^verbatim>\<open>_parse_relative_directory\<close> resolves \<^verbatim>\<open>.\<close> to the address's \<open>spec_path\<close>; \<^verbatim>\<open>./x\<close> to
  \<^verbatim>\<open>os.path.join\<close> of that directory and \<open>x\<close>, which is the directory, a separator and \<open>x\<close> when
  \<open>x\<close> is relative and the directory is non-empty without trailing separator, and is \<open>x\<close>
  itself when \<open>x\<close> starts with the separator; a string starting with the separator to the
  same string without its first character, which no longer starts with the separator unless
  the string started with two of them; and any other string to itself.
\<close>

theorem parse_relative_directory_cases:
  "parse_relative_directory ''.'' (RelAddress a) = spec_path a
   \<and> parse_relative_directory (''./'' @ x) (RelAddress a) = os_path_join (spec_path a) x
   \<and> (\<not> startswith x ''/'' \<and> spec_path a \<noteq> [] \<and> \<not> endswith (spec_path a) ''/''
        \<longrightarrow> parse_relative_directory (''./'' @ x) (RelAddress a) = spec_path a @ ''/'' @ x)
   \<and> (startswith x ''/'' \<longrightarrow> parse_relative_directory (''./'' @ x) (RelAddress a) = x)
   \<and> parse_relative_directory (''/'' @ s) (RelAddress a) = s
   \<and> (\<not> startswith s ''/''
        \<longrightarrow> \<not> startswith (parse_relative_directory (''/'' @ s) (RelAddress a)) ''/'')
   \<and> (w \<noteq> ''.'' \<and> \<not> startswith w ''./'' \<and> \<not> startswith w ''/''
        \<longrightarrow> parse_relative_directory w (RelAddress a) = w)"
  by (simp add: parse_relative_directory_def startswith_def os_path_join_def)

text \<open>Witness for the amended C6 at the address \<^verbatim>\<open>src/app:cmd\<close>.\<close>

theorem parse_relative_directory_cases_witness:
  "parse_relative_directory ''./gen'' (RelAddress app_address) = ''src/app/gen''
   \<and> parse_relative_directory ''.//etc'' (RelAddress app_address) = ''/etc''
   \<and> \<not> startswith (parse_relative_directory ''/tmp'' (RelAddress app_address)) ''/''
   \<and> parse_relative_directory ''build/out'' (RelAddress app_address) = ''build/out''"
  using parse_relative_directory_cases
    [where x = "''gen''" and a = app_address and s = "''tmp''" and w = "''build/out''"]
    parse_relative_directory_cases
    [where x = "''/etc''" and a = app_address and s = "''tmp''" and w = "''build/out''"]
  by (simp add: app_address_def startswith_def endswith_def os_path_join_def)

text \<open>
  Claim C7, as stated, fails at the spec's own scenario: \<^verbatim>\<open>shlex.quote\<close> leaves \<^verbatim>\<open>src/app\<close>
  unquoted, so the shell string is not \<^verbatim>\<open>cd 'src/app' && echo hi\<close>; and a declared output
  that starts with the separator is not prefixed with the working directory.
\<close>

theorem output_at_build_root_counterexample:
  "proc_argv (output_at_build_root echo_process \<lparr>bash_path = ''/bin/bash''\<rparr>) ! 2
     \<noteq> ''cd '' @ [sq] @ ''src/app'' @ [sq] @ '' && echo hi''
   \<and> \<not> startswith
         (proc_output_files (output_at_build_root echo_process \<lparr>bash_path = ''/bin/bash''\<rparr>) ! 1)
         ''src/app''"
  by (simp add: output_at_build_root_def echo_process_def app_address_def
      parse_relative_directory_def shlex_quote_def find_unsafe_def safe_chars_def
      os_path_join_def startswith_def endswith_def)

text \<open>
  Claim C7, amended. For every process with a non-empty working directory \<open>w\<close>, the rewrite
  replaces the argv with the shell path, \<^verbatim>\<open>-c\<close> and the string \<^verbatim>\<open>cd\<close> \<open>shlex_quote w\<close> \<^verbatim>\<open>&&\<close>
  followed by the space-joined quoted original argv, clears the working-directory field, and
  replaces every declared output file and directory \<open>d\<close> by \<open>os_path_join w d\<close>, which starts
  with \<open>w\<close> when \<open>d\<close> does not start with the separator and is \<open>d\<close> itself otherwise. For
  \<^verbatim>\<open>src/app\<close> and argv \<^verbatim>\<open>["echo","hi"]\<close> the shell string is \<^verbatim>\<open>cd src/app && echo hi\<close>.
\<close>

theorem output_at_build_root_rewrite:
  "proc_working_directory p = Some w \<and> w \<noteq> [] \<longrightarrow>
     proc_argv (output_at_build_root p bash) =
       [bash_path bash, ''-c'',
        ''cd '' @ shlex_quote w @ '' && '' @ str_join '' '' (map shlex_quote (proc_argv p))]
     \<and> proc_working_directory (output_at_build_root p bash) = None
     \<and> proc_output_files (output_at_build_root p bash) = map (os_path_join w) (proc_output_files p)
     \<and> proc_output_directories (output_at_build_root p bash)
         = map (os_path_join w) (proc_output_directories p)
     \<and> (\<forall>d. \<not> startswith d ''/'' \<longrightarrow> startswith (os_path_join w d) w)
     \<and> (\<forall>d. startswith d ''/'' \<longrightarrow> os_path_join w d = d)
     \<and> (w = ''src/app'' \<and> proc_argv p = [''echo'', ''hi''] \<longrightarrow>
          proc_argv (output_at_build_root p bash) ! 2 = ''cd src/app && echo hi'')"
  by (auto simp add: output_at_build_root_def Let_def os_path_join_absolute os_path_join_relative
      shlex_quote_def find_unsafe_def safe_chars_def)

text \<open>Witness for the amended C7 at the scenario of the spec.\<close>

theorem output_at_build_root_rewrite_witness:
  "proc_argv (output_at_build_root echo_process \<lparr>bash_path = ''/bin/bash''\<rparr>)
     = [''/bin/bash'', ''-c'', ''cd src/app && echo hi'']
   \<and> proc_working_directory (output_at_build_root echo_process \<lparr>bash_path = ''/bin/bash''\<rparr>) = None
   \<and> proc_output_files (output_at_build_root echo_process \<lparr>bash_path = ''/bin/bash''\<rparr>)
       = [''src/app/out.txt'', ''/abs/log.txt'']
   \<and> proc_output_directories (output_at_build_root echo_process \<lparr>bash_path = ''/bin/bash''\<rparr>)
       = [''src/app/dist'']"
  using output_at_build_root_rewrite [of echo_process "''src/app''" "\<lparr>bash_path = ''/bin/bash''\<rparr>"]
  by (simp add: echo_process_def app_address_def parse_relative_directory_def
      shlex_quote_def find_unsafe_def safe_chars_def os_path_join_def startswith_def endswith_def)


section \<open>The loop of \<^verbatim>\<open>_resolve_runnable_dependencies\<close>\<close>

text \<open>
  The loop succeeds exactly when both accumulators can be merged, and then returns the two
  merged maps, the run digests and the shims in order; every failure is the replaced error.
\<close>

lemma resolve_runnable_dependencies_loop_eq:
  "resolve_runnable_dependencies_loop bash zs (digests, shims, iid, aoc) =
     (case safe_update_all iid (map (\<lambda>z. or_empty (rr_immutable_input_digests (snd z))) zs) of
        Inl _ \<Rightarrow> Inl incompatible_environments
      | Inr iid' \<Rightarrow>
          (case safe_update_all aoc (map (\<lambda>z. or_empty (rr_append_only_caches (snd z))) zs) of
             Inl _ \<Rightarrow> Inl incompatible_environments
           | Inr aoc' \<Rightarrow>
               Inr (digests @ map (\<lambda>z. rr_digest (snd z)) zs,
                    shims @ map (shim_file bash) zs, iid', aoc')))"
proof (induction zs arbitrary: digests shims iid aoc)
  case Nil
  then show ?case by simp
next
  case (Cons z zs)
  obtain dep r where z: "z = (dep, r)" by (cases z)
  show ?case
  proof (cases "safe_update iid (or_empty (rr_immutable_input_digests r))")
    case (Inl e)
    then show ?thesis unfolding z by simp
  next
    case iid1: (Inr iid1)
    show ?thesis
    proof (cases "safe_update aoc (or_empty (rr_append_only_caches r))")
      case (Inl e)
      then show ?thesis using iid1 unfolding z by (simp split: sum.splits)
    next
      case (Inr aoc1)
      then show ?thesis using iid1 Cons.IH unfolding z by (simp add: Let_def split: sum.splits)
    qed
  qed
qed

lemma conflict_not_single_valued:
  assumes "m1 \<in> set ms" "m2 \<in> set ms" "(k, v) \<in> set m1" "(k, v') \<in> set m2" "v \<noteq> v'"
  shows "\<not> single_valued (Map.graph d \<union> \<Union> (set ` set ms))"
proof
  assume sv: "single_valued (Map.graph d \<union> \<Union> (set ` set ms))"
  have "(k, v) \<in> Map.graph d \<union> \<Union> (set ` set ms)" using assms(1,3) by auto
  moreover have "(k, v') \<in> Map.graph d \<union> \<Union> (set ` set ms)" using assms(2,4) by auto
  ultimately have "v = v'" using sv by (meson single_valuedD)
  with assms(5) show False by simp
qed

lemma safe_update_all_conflict:
  assumes "m1 \<in> set ms" "m2 \<in> set ms" "(k, v) \<in> set m1" "(k, v') \<in> set m2" "v \<noteq> v'"
  shows "\<exists>e. safe_update_all d ms = Inl e"
proof -
  have "\<not> (\<exists>r. safe_update_all d ms = Inr r)"
    using conflict_not_single_valued [OF assms] safe_update_all_succeeds_iff [of d ms] by simp
  then show ?thesis by (cases "safe_update_all d ms") auto
qed

text \<open>
  Given two run requests that disagree on a key, the loop raises the replaced error and
  nothing is returned.
\<close>

lemma resolve_runnable_dependencies_merge_conflict:
  assumes "(d1, r1) \<in> set (zip deps runnables)"
    and "(d2, r2) \<in> set (zip deps runnables)"
    and "(\<exists>k v v'. (k, v) \<in> set (or_empty (rr_immutable_input_digests r1))
            \<and> (k, v') \<in> set (or_empty (rr_immutable_input_digests r2)) \<and> v \<noteq> v')
       \<or> (\<exists>k v v'. (k, v) \<in> set (or_empty (rr_append_only_caches r1))
            \<and> (k, v') \<in> set (or_empty (rr_append_only_caches r2)) \<and> v \<noteq> v')"
  shows "resolve_runnable_dependencies_merge engine bash deps runnables =
           Inl (ValueError
             ''One or more runnable dependencies have mutually incompatible environments.'')
     \<and> resolve_runnable_dependencies_merge engine bash deps runnables
          \<noteq> Inl (ValueError ''Beep'')
     \<and> (\<forall>digest rd. resolve_runnable_dependencies_merge engine bash deps runnables
          \<noteq> Inr (digest, rd))"
proof -
  let ?zs = "zip deps runnables"
  let ?iids = "map (\<lambda>z. or_empty (rr_immutable_input_digests (snd z))) ?zs"
  let ?aocs = "map (\<lambda>z. or_empty (rr_append_only_caches (snd z))) ?zs"
  have "(\<exists>e. safe_update_all Map.empty ?iids = Inl e)
      \<or> (\<exists>e. safe_update_all Map.empty ?aocs = Inl e)"
    using assms(3)
  proof
    assume "\<exists>k v v'. (k, v) \<in> set (or_empty (rr_immutable_input_digests r1))
            \<and> (k, v') \<in> set (or_empty (rr_immutable_input_digests r2)) \<and> v \<noteq> v'"
    then obtain k v v' where c: "(k, v) \<in> set (or_empty (rr_immutable_input_digests r1))"
      "(k, v') \<in> set (or_empty (rr_immutable_input_digests r2))" "v \<noteq> v'" by blast
    have m1: "or_empty (rr_immutable_input_digests r1) \<in> set ?iids"
      using assms(1) by (auto simp: image_iff intro!: bexI [of _ "(d1, r1)"])
    have m2: "or_empty (rr_immutable_input_digests r2) \<in> set ?iids"
      using assms(2) by (auto simp: image_iff intro!: bexI [of _ "(d2, r2)"])
    show ?thesis by (rule disjI1) (rule safe_update_all_conflict [OF m1 m2 c])
  next
    assume "\<exists>k v v'. (k, v) \<in> set (or_empty (rr_append_only_caches r1))
            \<and> (k, v') \<in> set (or_empty (rr_append_only_caches r2)) \<and> v \<noteq> v'"
    then obtain k v v' where c: "(k, v) \<in> set (or_empty (rr_append_only_caches r1))"
      "(k, v') \<in> set (or_empty (rr_append_only_caches r2))" "v \<noteq> v'" by blast
    have m1: "or_empty (rr_append_only_caches r1) \<in> set ?aocs"
      using assms(1) by (auto simp: image_iff intro!: bexI [of _ "(d1, r1)"])
    have m2: "or_empty (rr_append_only_caches r2) \<in> set ?aocs"
      using assms(2) by (auto simp: image_iff intro!: bexI [of _ "(d2, r2)"])
    show ?thesis by (rule disjI2) (rule safe_update_all_conflict [OF m1 m2 c])
  qed
  then have "resolve_runnable_dependencies_loop (bash_path bash) ?zs ([], [], Map.empty, Map.empty)
      = Inl incompatible_environments"
    unfolding resolve_runnable_dependencies_loop_eq by (auto split: sum.splits)
  then have "resolve_runnable_dependencies_merge engine bash deps runnables
      = Inl incompatible_environments"
    by (simp add: resolve_runnable_dependencies_merge_def)
  then show ?thesis by (simp add: incompatible_environments_def)
qed

text \<open>A single mapping has distinct keys, so merging it into an empty accumulator succeeds.\<close>

lemma distinct_keys_single_valued:
  assumes "distinct (map fst xs)"
  shows "single_valued (set xs)"
proof -
  have inj: "inj_on fst (set xs)" using assms by (simp add: distinct_map)
  show ?thesis
  proof (rule single_valuedI)
    fix k v v'
    assume "(k, v) \<in> set xs" "(k, v') \<in> set xs"
    then have "(k, v) = (k, v')"
      using inj_onD [OF inj, of "(k, v)" "(k, v')"] by simp
    then show "v = v'" by simp
  qed
qed

lemma safe_update_empty_distinct:
  assumes "distinct (map fst xs)"
  shows "\<exists>r. safe_update Map.empty xs = Inr r"
  using safe_update_succeeds_iff [of Map.empty xs] distinct_keys_single_valued [OF assms]
  by simp

text \<open>
  Claim C4 evaluated on the whole function. It requests one \<^verbatim>\<open>RunInSandboxRequest\<close>, for the
  one-element tuple \<open>fspt\<close>, whatever the number of declarations; the loop runs at most once,
  no two run requests are ever compared, and for every list of declarations the function
  returns a \<^verbatim>\<open>RunnableDependencies\<close> whose wrapper scripts are those of at most the first
  declaration, instead of aborting.
\<close>

theorem resolve_runnable_dependencies_one_request_only:
  "distinct (map fst (or_empty (rr_immutable_input_digests (get_run field_sets_per_target))))
     \<and> distinct (map fst (or_empty (rr_append_only_caches (get_run field_sets_per_target))))
   \<longrightarrow> (\<exists>digest rd.
          resolve_runnable_dependencies engine get_run field_sets_per_target bash deps
            = Inr (digest, rd)
          \<and> rd_path_component rd =
              ''shims_'' @ fingerprint engine
                (create_digest engine
                   (map FileEntry
                      (map (shim_file (bash_path bash))
                         (zip (take 1 deps) [get_run field_sets_per_target])))))"
proof
  let ?r = "get_run field_sets_per_target"
  assume d: "distinct (map fst (or_empty (rr_immutable_input_digests ?r)))
     \<and> distinct (map fst (or_empty (rr_append_only_caches ?r)))"
  obtain iid where iid: "safe_update Map.empty (or_empty (rr_immutable_input_digests ?r)) = Inr iid"
    using d safe_update_empty_distinct by blast
  obtain aoc where aoc: "safe_update Map.empty (or_empty (rr_append_only_caches ?r)) = Inr aoc"
    using d safe_update_empty_distinct by blast
  show "\<exists>digest rd.
          resolve_runnable_dependencies engine get_run field_sets_per_target bash deps
            = Inr (digest, rd)
          \<and> rd_path_component rd =
              ''shims_'' @ fingerprint engine
                (create_digest engine
                   (map FileEntry
                      (map (shim_file (bash_path bash)) (zip (take 1 deps) [?r]))))"
  proof (cases deps)
    case Nil
    then show ?thesis
      by (simp add: resolve_runnable_dependencies_def resolve_runnable_dependencies_merge_def
          Let_def)
  next
    case (Cons dep rest)
    then show ?thesis
      using iid aoc
      by (simp add: resolve_runnable_dependencies_def resolve_runnable_dependencies_merge_def
          Let_def)
  qed
qed

text \<open>
  Witness for the evaluation of C4: two declarations, of which only \<^verbatim>\<open>fmt\<close> gets a shim.
\<close>

theorem resolve_runnable_dependencies_one_request_only_witness:
  "\<exists>digest rd.
     resolve_runnable_dependencies paths_engine (\<lambda>_. fmt_run) () bin_bash [fmt_dep, lint_dep]
       = Inr (digest, rd)
     \<and> rd_path_component rd = ''shims_fmt''"
proof -
  have d: "distinct (map fst (or_empty (rr_immutable_input_digests ((\<lambda>_. fmt_run) ()))))
     \<and> distinct (map fst (or_empty (rr_append_only_caches ((\<lambda>_. fmt_run) ()))))"
    by (simp add: fmt_run_def or_empty_def)
  have key: "''shims_'' @ fingerprint paths_engine
                (create_digest paths_engine
                   (map FileEntry
                      (map (shim_file (bash_path bin_bash))
                         (zip (take 1 [fmt_dep, lint_dep]) [(\<lambda>_. fmt_run) ()]))))
      = ''shims_fmt''"
    by (simp add: paths_engine_def shim_file_def fmt_dep_def)
  from mp [OF resolve_runnable_dependencies_one_request_only
      [of "\<lambda>_. fmt_run" "()" paths_engine bin_bash "[fmt_dep, lint_dep]"] d]
  show ?thesis unfolding key .
qed

lemma safe_update_all_lookup:
  assumes "safe_update_all Map.empty ms = Inr r" "m \<in> set ms" "(k, v) \<in> set m"
  shows "r k = Some v"
proof -
  have "Map.graph r = \<Union> (set ` set ms)"
    using safe_update_all_graph [OF assms(1)] by simp
  then have "(k, v) \<in> Map.graph r" using assms(2,3) by auto
  then show ?thesis by (rule in_graphD)
qed

text \<open>
  Claim C10. When the conflict-checked merge of all runnables' maps has succeeded, the digest
  of the wrapper scripts is stored under the key \<^verbatim>\<open>shims_\<close> followed by its fingerprint by
  plain assignment: even if some runnable binds that key to a different digest, the function
  returns, and the returned map binds the key to the wrapper-script digest, not to the
  runnable's digest; all other keys and the caches are those of the merge.
\<close>

theorem shim_digest_assigned_unchecked:
  assumes "zs = zip deps runnables"
    and "shim_digest = create_digest engine (map FileEntry (map (shim_file (bash_path bash)) zs))"
    and "key = ''shims_'' @ fingerprint engine shim_digest"
    and "safe_update_all Map.empty
           (map (\<lambda>z. or_empty (rr_immutable_input_digests (snd z))) zs) = Inr iid"
    and "safe_update_all Map.empty
           (map (\<lambda>z. or_empty (rr_append_only_caches (snd z))) zs) = Inr aoc"
    and "(dep, r) \<in> set zs"
    and "(key, other) \<in> set (or_empty (rr_immutable_input_digests r))"
    and "other \<noteq> shim_digest"
  shows "iid key = Some other
     \<and> (\<exists>digest rd.
          resolve_runnable_dependencies_merge engine bash deps runnables = Inr (digest, rd)
          \<and> rd_path_component rd = key
          \<and> rd_immutable_input_digests rd key = Some shim_digest
          \<and> rd_immutable_input_digests rd key \<noteq> Some other
          \<and> (\<forall>k. k \<noteq> key \<longrightarrow> rd_immutable_input_digests rd k = iid k)
          \<and> rd_append_only_caches rd = aoc)"
proof -
  have mem: "or_empty (rr_immutable_input_digests r)
      \<in> set (map (\<lambda>z. or_empty (rr_immutable_input_digests (snd z))) zs)"
    using assms(6) by (auto simp: image_iff intro!: bexI [of _ "(dep, r)"])
  have bound: "iid key = Some other"
    using assms(4) mem assms(7) by (rule safe_update_all_lookup)
  have loop: "resolve_runnable_dependencies_loop (bash_path bash) (zip deps runnables)
        ([], [], Map.empty, Map.empty)
      = Inr (map (\<lambda>z. rr_digest (snd z)) zs, map (shim_file (bash_path bash)) zs, iid, aoc)"
    unfolding resolve_runnable_dependencies_loop_eq using assms(1,4,5) by simp
  have "resolve_runnable_dependencies_merge engine bash deps runnables =
      Inr (merge_digests engine (map (\<lambda>z. rr_digest (snd z)) zs),
           \<lparr>rd_path_component = key,
            rd_immutable_input_digests = iid(key \<mapsto> shim_digest),
            rd_append_only_caches = aoc\<rparr>)"
    using loop assms(2,3) by (simp add: resolve_runnable_dependencies_merge_def Let_def)
  with bound assms(8) show ?thesis by simp
qed

text \<open>
  Witness for C10: the runnable binds \<^verbatim>\<open>shims_fmt\<close>, the key computed for its own shim, to
  another digest.
\<close>

theorem shim_digest_assigned_unchecked_witness:
  "\<exists>digest rd.
     resolve_runnable_dependencies_merge paths_engine bin_bash [fmt_dep] [fmt_run] = Inr (digest, rd)
     \<and> rd_path_component rd = ''shims_fmt''
     \<and> rd_immutable_input_digests rd ''shims_fmt'' = Some [''fmt'']"
proof -
  have zs: "[(fmt_dep, fmt_run)] = zip [fmt_dep] [fmt_run]" by simp
  have sd: "[''fmt''] = create_digest paths_engine
      (map FileEntry (map (shim_file (bash_path bin_bash)) [(fmt_dep, fmt_run)]))"
    by (simp add: paths_engine_def shim_file_def fmt_dep_def)
  have key: "''shims_fmt'' = ''shims_'' @ fingerprint paths_engine [''fmt'']"
    by (simp add: paths_engine_def)
  have iid: "safe_update_all Map.empty
      (map (\<lambda>z. or_empty (rr_immutable_input_digests (snd z))) [(fmt_dep, fmt_run)])
      = Inr [''shims_fmt'' \<mapsto> [''other/tool'']]"
    by (simp add: fmt_run_def or_empty_def)
  have aoc: "safe_update_all Map.empty
      (map (\<lambda>z. or_empty (rr_append_only_caches (snd z))) [(fmt_dep, fmt_run)])
      = Inr [''cache'' \<mapsto> ''.cache/a'']"
    by (simp add: fmt_run_def or_empty_def)
  have mem: "(fmt_dep, fmt_run) \<in> set [(fmt_dep, fmt_run)]" by simp
  have bind: "(''shims_fmt'', [''other/tool'']) \<in> set (or_empty (rr_immutable_input_digests fmt_run))"
    by (simp add: fmt_run_def or_empty_def)
  have ne: "[''other/tool''] \<noteq> [''fmt'']" by simp
  from shim_digest_assigned_unchecked [OF zs sd key iid aoc mem bind ne]
  obtain digest rd where
    "resolve_runnable_dependencies_merge paths_engine bin_bash [fmt_dep] [fmt_run] = Inr (digest, rd)"
    "rd_path_component rd = ''shims_fmt''"
    "rd_immutable_input_digests rd ''shims_fmt'' = Some [''fmt'']"
    by (elim conjE exE)
  then show ?thesis by (intro exI conjI)
qed


section \<open>The wrapper scripts\<close>

text \<open>
  The scenario of the spec: for argv \<^verbatim>\<open>/bin/fmt -w\<close> and no extra environment the shim has a
  shebang line, an empty line and the \<^verbatim>\<open>exec\<close> line.
\<close>

lemma shim_fmt_scenario:
  "split_lines (runnable_dependency_shim ''/bin/bash'' [''/bin/fmt'', ''-w''] [])
     = [''#!/bin/bash'', [], ''exec /bin/fmt -w '' @ [dq] @ ''$@'' @ [dq], []]"
  by code_simp

text \<open>
  Claim C8 evaluated at a run request with two extra environment variables. The second export
  line carries no indentation, so \<^verbatim>\<open>dedent\<close> finds an empty margin and removes nothing: the
  script does not begin with \<^verbatim>\<open>#!\<close>, and the shebang, the first export and the \<^verbatim>\<open>exec\<close> line
  keep eight leading spaces.
\<close>

theorem shim_two_exports_not_dedented:
  "split_lines
     (runnable_dependency_shim ''/bin/bash'' [''/bin/fmt'', ''-w''] [(''A'', ''1''), (''B'', ''2'')])
     = [''        #!/bin/bash'', ''        export A=1'', ''export B=2'',
        ''        exec /bin/fmt -w '' @ [dq] @ ''$@'' @ [dq], []]
   \<and> \<not> startswith
         (runnable_dependency_shim ''/bin/bash'' [''/bin/fmt'', ''-w'']
            [(''A'', ''1''), (''B'', ''2'')])
         ''#!''"
  by code_simp

text \<open>
  The whole function requests a single \<^verbatim>\<open>RunInSandboxRequest\<close>, so it behaves as the loop on
  at most the first declaration.
\<close>

lemma resolve_runnable_dependencies_single_request:
  "resolve_runnable_dependencies engine get_run field_sets_per_target bash deps
     = resolve_runnable_dependencies_merge engine bash (take 1 deps) [get_run field_sets_per_target]"
  by (cases deps) (simp_all add: resolve_runnable_dependencies_def resolve_runnable_dependencies_merge_def)

text \<open>
  With two declarations the whole function returns a wrapper-script digest that holds the
  shim of the first declaration only.
\<close>

lemma resolve_runnable_dependencies_two_declarations:
  "resolve_runnable_dependencies paths_engine (\<lambda>_. fmt_run) () bin_bash [fmt_dep, lint_dep]
     = Inr ([''bin/fmt''],
            \<lparr>rd_path_component = ''shims_fmt'',
             rd_immutable_input_digests = [''shims_fmt'' \<mapsto> [''fmt'']],
             rd_append_only_caches = [''cache'' \<mapsto> ''.cache/a'']\<rparr>)"
  by (simp add: resolve_runnable_dependencies_def resolve_runnable_dependencies_merge_def
      paths_engine_def fmt_run_def fmt_dep_def lint_dep_def bin_bash_def or_empty_def
      shim_file_def Let_def)


section \<open>\<^verbatim>\<open>_find_what_to_run\<close>\<close>

text \<open>
  Claim C2 evaluated at a root selection whose first target has exactly one primary field-set
  and one secondary field-set, and whose second target has only a secondary field-set: the
  function raises \<^verbatim>\<open>TooManyTargetsException\<close>. With the two targets in the other order it
  returns the primary field-set and its target.
\<close>

theorem find_what_to_run_order_dependent:
  "find_what_to_run [(app_target, [source_fs, pex_fs]), (jar_target, [deploy_jar_fs])] ''the run goal''
     = Inl (TooManyTargetsException
              [(app_target, [source_fs, pex_fs]), (jar_target, [deploy_jar_fs])] ''the run goal'')
   \<and> find_what_to_run [(jar_target, [deploy_jar_fs]), (app_target, [source_fs, pex_fs])] ''the run goal''
     = Inr (source_fs, app_target)"
  by (simp add: find_what_to_run_def rank_field_sets_def partition_by_def
      is_primary_field_set_def source_fs_def pex_fs_def deploy_jar_fs_def)

text \<open>
  Claim C3 evaluated on every mapping that starts with a target having both primary and
  secondary field-sets, followed by a target having only secondary field-sets: the
  secondary-only target makes the function raise \<^verbatim>\<open>TooManyTargetsException\<close> against the
  target with a primary field-set.
\<close>

theorem secondary_only_target_fails_against_primary:
  "primary (rank_field_sets fs1) \<noteq> [] \<and> secondary (rank_field_sets fs1) \<noteq> []
     \<and> primary (rank_field_sets fs2) = [] \<and> secondary (rank_field_sets fs2) \<noteq> []
   \<longrightarrow> find_what_to_run ((t1, fs1) # (t2, fs2) # rest) goal_description
         = Inl (TooManyTargetsException ((t1, fs1) # (t2, fs2) # rest) goal_description)"
  by (simp add: find_what_to_run_def)

text \<open>Witness for the evaluation of C3.\<close>

theorem secondary_only_target_fails_against_primary_witness:
  "find_what_to_run [(jar_target, [source_fs, deploy_jar_fs]), (app_target, [pex_fs])] ''the run goal''
     = Inl (TooManyTargetsException
              [(jar_target, [source_fs, deploy_jar_fs]), (app_target, [pex_fs])] ''the run goal'')"
  using secondary_only_target_fails_against_primary
    [of "[source_fs, deploy_jar_fs]" "[pex_fs]" jar_target app_target "[]" "''the run goal''"]
  by (simp add: rank_field_sets_def partition_by_def is_primary_field_set_def
      source_fs_def pex_fs_def deploy_jar_fs_def)



section \<open>\<^verbatim>\<open>run_adhoc_process\<close>\<close>

lemma log_process_output_ok:
  assumes "log_output \<longrightarrow> decode (pr_stdout result) \<noteq> None \<and> decode (pr_stderr result) \<noteq> None"
  shows "\<exists>l. log_process_output log_output result = (l, None)"
  using assms by (auto simp: log_process_output_def split: option.splits)

lemma log_process_output_fails:
  assumes "log_output"
    and "(pr_stdout result \<noteq> [] \<and> decode (pr_stdout result) = None)
       \<or> (pr_stderr result \<noteq> [] \<and> decode (pr_stderr result) = None)"
  shows "\<exists>l. log_process_output log_output result = (l, Some UnicodeDecodeError)"
  using assms by (auto simp: log_process_output_def split: option.splits)

text \<open>
  Claim C5, as stated, fails for a process that ran to completion with exit code 3. Under an
  engine whose conversion to a \<^verbatim>\<open>ProcessResult\<close> raises on a nonzero exit code the failure is
  propagated; under an engine whose conversion returns for every exit code, with output
  logging requested and a captured stdout that is not UTF-8, \<^verbatim>\<open>bytes.decode\<close> raises.
\<close>

theorem run_adhoc_process_exit_code_counterexample:
  "snd (run_adhoc_process (exit3_engine strict_conversion ''generated'') bin_bash echo_request)
     = Inl (ProcessExecutionFailure 3)
   \<and> snd (run_adhoc_process (exit3_engine lenient_conversion [CHR 0xFF]) bin_bash echo_request)
     = Inl UnicodeDecodeError"
  by (simp add: run_adhoc_process_def exit3_engine_def paths_engine_def strict_conversion_def
      lenient_conversion_def echo_request_def log_process_output_def decode_def Let_def)

text \<open>
  Claim C5, amended. For every request whose process launched and ran to completion,
  \<^verbatim>\<open>run_adhoc_process\<close> first logs the non-empty message configured for the observed exit
  code, which is the only use it makes of the exit code. If the engine's conversion of the
  \<^verbatim>\<open>FallibleProcessResult\<close> raises, that failure is propagated. If it returns a
  \<^verbatim>\<open>ProcessResult\<close> and, when output logging is requested, the captured streams decode as
  UTF-8, an \<^verbatim>\<open>AdhocProcessResult\<close> holding that result is returned. If output logging is
  requested and a non-empty captured stream does not decode, \<^verbatim>\<open>UnicodeDecodeError\<close> is
  propagated.
\<close>

theorem run_adhoc_process_completed:
  "execute engine (prepare_adhoc_process engine request bash) = Inr fr \<longrightarrow>
     (\<forall>e. to_process_result engine fr (apr_description request) = Inl e \<longrightarrow>
        run_adhoc_process engine bash request
          = (log_on_error request (fpr_exit_code fr), Inl e))
   \<and> (\<forall>pr. to_process_result engine fr (apr_description request) = Inr pr
          \<and> (apr_log_output request \<longrightarrow>
                decode (pr_stdout pr) \<noteq> None \<and> decode (pr_stderr pr) \<noteq> None) \<longrightarrow>
        (\<exists>log result.
           run_adhoc_process engine bash request
             = (log_on_error request (fpr_exit_code fr) @ log, Inr result)
           \<and> process_result result = pr))
   \<and> (\<forall>pr. to_process_result engine fr (apr_description request) = Inr pr
          \<and> apr_log_output request
          \<and> ((pr_stdout pr \<noteq> [] \<and> decode (pr_stdout pr) = None)
               \<or> (pr_stderr pr \<noteq> [] \<and> decode (pr_stderr pr) = None)) \<longrightarrow>
        snd (run_adhoc_process engine bash request) = Inl UnicodeDecodeError)
   \<and> (\<forall>m msg. apr_log_on_process_errors request = Some m
          \<and> m (fpr_exit_code fr) = Some msg \<and> msg \<noteq> [] \<longrightarrow>
        log_on_error request (fpr_exit_code fr) = [(ERROR, msg)])"
proof (intro impI conjI allI)
  fix e
  assume "execute engine (prepare_adhoc_process engine request bash) = Inr fr"
    and "to_process_result engine fr (apr_description request) = Inl e"
  then show "run_adhoc_process engine bash request
      = (log_on_error request (fpr_exit_code fr), Inl e)"
    by (simp add: run_adhoc_process_def Let_def)
next
  fix pr
  assume ex: "execute engine (prepare_adhoc_process engine request bash) = Inr fr"
    and pr: "to_process_result engine fr (apr_description request) = Inr pr
          \<and> (apr_log_output request \<longrightarrow>
                decode (pr_stdout pr) \<noteq> None \<and> decode (pr_stderr pr) \<noteq> None)"
  then obtain l where l: "log_process_output (apr_log_output request) pr = (l, None)"
    using log_process_output_ok by blast
  show "\<exists>log result.
           run_adhoc_process engine bash request
             = (log_on_error request (fpr_exit_code fr) @ log, Inr result)
           \<and> process_result result = pr"
    using ex pr l by (simp add: run_adhoc_process_def Let_def)
next
  fix pr
  assume ex: "execute engine (prepare_adhoc_process engine request bash) = Inr fr"
    and pr: "to_process_result engine fr (apr_description request) = Inr pr
          \<and> apr_log_output request
          \<and> ((pr_stdout pr \<noteq> [] \<and> decode (pr_stdout pr) = None)
               \<or> (pr_stderr pr \<noteq> [] \<and> decode (pr_stderr pr) = None))"
  then obtain l where
    l: "log_process_output (apr_log_output request) pr = (l, Some UnicodeDecodeError)"
    using log_process_output_fails by blast
  show "snd (run_adhoc_process engine bash request) = Inl UnicodeDecodeError"
    using ex pr l by (simp add: run_adhoc_process_def Let_def)
next
  fix m msg
  assume "apr_log_on_process_errors request = Some m
          \<and> m (fpr_exit_code fr) = Some msg \<and> msg \<noteq> []"
  then show "log_on_error request (fpr_exit_code fr) = [(ERROR, msg)]"
    by (simp add: log_on_error_def)
qed

text \<open>The declared output of \<open>echo_request\<close> as the prepared process names it.\<close>

lemma prepare_echo_request_output_files:
  "proc_output_files (prepare_adhoc_process engine echo_request bash) = [''src/app/out.txt'']"
  by (simp add: prepare_adhoc_process_def output_at_build_root_def echo_request_def
      app_address_def parse_relative_directory_def os_path_join_def startswith_def endswith_def
      Let_def)

text \<open>
  Witness for the amended C5: exit code 3 under the raising conversion, with the configured
  message logged before the failure, and exit code 0 returning a result.
\<close>

theorem run_adhoc_process_completed_witness:
  "run_adhoc_process (exit3_engine strict_conversion ''generated'') bin_bash echo_request
     = ([(ERROR, ''echo failed'')], Inl (ProcessExecutionFailure 3))
   \<and> (\<exists>log result.
         run_adhoc_process paths_engine bin_bash echo_request = (log, Inr result)
         \<and> pr_stdout (process_result result) = ''generated'')"
proof -
  let ?e3 = "exit3_engine strict_conversion ''generated''"
  have ex3: "execute ?e3 (prepare_adhoc_process ?e3 echo_request bin_bash) = Inr exit3_result"
    by (simp add: exit3_engine_def paths_engine_def exit3_result_def
        prepare_echo_request_output_files)
  have conv3: "to_process_result ?e3 exit3_result (apr_description echo_request)
      = Inl (ProcessExecutionFailure 3)"
    by (simp add: exit3_engine_def paths_engine_def exit3_result_def strict_conversion_def)
  have msg: "apr_log_on_process_errors echo_request = Some [3 \<mapsto> ''echo failed'']
      \<and> [3 \<mapsto> ''echo failed''] (fpr_exit_code exit3_result) = Some ''echo failed''
      \<and> ''echo failed'' \<noteq> []"
    by (simp add: echo_request_def exit3_result_def)
  note t3 = mp [OF run_adhoc_process_completed [of ?e3 echo_request bin_bash exit3_result] ex3]
  have fail: "\<forall>e. to_process_result ?e3 exit3_result (apr_description echo_request) = Inl e \<longrightarrow>
        run_adhoc_process ?e3 bin_bash echo_request
          = (log_on_error echo_request (fpr_exit_code exit3_result), Inl e)"
    by (rule conjunct1 [OF t3])
  have logd: "\<forall>m msg. apr_log_on_process_errors echo_request = Some m
          \<and> m (fpr_exit_code exit3_result) = Some msg \<and> msg \<noteq> [] \<longrightarrow>
        log_on_error echo_request (fpr_exit_code exit3_result) = [(ERROR, msg)]"
    by (rule conjunct2 [OF conjunct2 [OF conjunct2 [OF t3]]])
  have l3: "log_on_error echo_request (fpr_exit_code exit3_result) = [(ERROR, ''echo failed'')]"
    by (rule mp [OF spec [OF spec [OF logd]] msg])
  have r3: "run_adhoc_process ?e3 bin_bash echo_request
      = (log_on_error echo_request (fpr_exit_code exit3_result), Inl (ProcessExecutionFailure 3))"
    by (rule mp [OF spec [OF fail] conv3])
  have ex0: "execute paths_engine (prepare_adhoc_process paths_engine echo_request bin_bash)
      = Inr exit0_result"
    by (simp add: paths_engine_def exit0_result_def prepare_echo_request_output_files)
  have conv0: "to_process_result paths_engine exit0_result (apr_description echo_request)
        = Inr \<lparr>pr_stdout = ''generated'', pr_stderr = [],
               pr_output_digest = [''src/app/out.txt'']\<rparr>
      \<and> (apr_log_output echo_request \<longrightarrow>
            decode (pr_stdout \<lparr>pr_stdout = ''generated'', pr_stderr = [],
               pr_output_digest = [''src/app/out.txt'']\<rparr>) \<noteq> None
            \<and> decode (pr_stderr \<lparr>pr_stdout = ''generated'', pr_stderr = [],
               pr_output_digest = [''src/app/out.txt'']\<rparr>) \<noteq> None)"
    by (simp add: paths_engine_def exit0_result_def strict_conversion_def decode_def)
  note t0 = mp [OF run_adhoc_process_completed
      [of paths_engine echo_request bin_bash exit0_result] ex0]
  have ok: "\<forall>pr. to_process_result paths_engine exit0_result (apr_description echo_request) = Inr pr
          \<and> (apr_log_output echo_request \<longrightarrow>
                decode (pr_stdout pr) \<noteq> None \<and> decode (pr_stderr pr) \<noteq> None) \<longrightarrow>
        (\<exists>log result.
           run_adhoc_process paths_engine bin_bash echo_request
             = (log_on_error echo_request (fpr_exit_code exit0_result) @ log, Inr result)
           \<and> process_result result = pr)"
    by (rule conjunct1 [OF conjunct2 [OF t0]])
  from mp [OF spec [OF ok] conv0] obtain log result where
    r0: "run_adhoc_process paths_engine bin_bash echo_request
          = (log_on_error echo_request (fpr_exit_code exit0_result) @ log, Inr result)"
    and p0: "process_result result = \<lparr>pr_stdout = ''generated'', pr_stderr = [],
               pr_output_digest = [''src/app/out.txt'']\<rparr>"
    by (elim exE conjE)
  from p0 have "pr_stdout (process_result result) = ''generated''" by simp
  with r0 have "\<exists>log result.
         run_adhoc_process paths_engine bin_bash echo_request = (log, Inr result)
         \<and> pr_stdout (process_result result) = ''generated''"
    by (intro exI conjI)
  with r3 l3 show ?thesis by simp
qed

text \<open>
  Stripping the prefix undoes \<^verbatim>\<open>os.path.join\<close> with a relative path, and stripping the empty
  prefix changes nothing.
\<close>

lemma os_path_join_directory_prefix:
  "\<not> startswith p ''/'' \<Longrightarrow> os_path_join prefix p = directory_prefix prefix @ p"
  by (simp add: os_path_join_def directory_prefix_def)

lemma remove_prefix_path_join:
  "\<not> startswith p ''/'' \<Longrightarrow> remove_prefix_path prefix (os_path_join prefix p) = p"
  by (simp add: os_path_join_directory_prefix remove_prefix_path_def)

lemma remove_prefix_paths_join:
  "\<forall>p \<in> set paths. \<not> startswith p ''/'' \<Longrightarrow>
     remove_prefix_paths (map (os_path_join prefix) paths) prefix = paths"
  by (induction paths) (simp_all add: remove_prefix_paths_def remove_prefix_path_join)

lemma remove_prefix_paths_empty: "remove_prefix_paths paths [] = paths"
  by (induction paths)
    (simp_all add: remove_prefix_paths_def remove_prefix_path_def directory_prefix_def
      startswith_def)

lemma prepare_adhoc_process_output_files:
  "proc_output_files (prepare_adhoc_process engine request bash) =
     (let wd = parse_relative_directory (apr_working_directory request)
                 (RelAddress (apr_address request))
      in if wd \<noteq> [] then map (os_path_join wd) (apr_output_files request)
         else apr_output_files request)"
  by (simp add: prepare_adhoc_process_def output_at_build_root_def Let_def)

lemma run_adhoc_process_adjusted:
  assumes "run_adhoc_process engine bash request = (log, Inr result)"
  shows "adjusted_digest result =
     remove_prefix engine (pr_output_digest (process_result result))
       (parse_relative_directory (apr_root_output_directory request)
          (RelStr (parse_relative_directory (apr_working_directory request)
             (RelAddress (apr_address request)))))"
  using assms
  by (auto simp: run_adhoc_process_def Let_def split: sum.splits prod.splits option.splits)

text \<open>
  Claim C9, as stated, fails for root output directory \<^verbatim>\<open>/\<close>: the prefix resolves to the
  empty string, nothing is stripped, and the returned path \<^verbatim>\<open>src/app/out.txt\<close> still starts with
  the resolved working directory \<^verbatim>\<open>src/app\<close>.
\<close>

theorem run_adhoc_process_root_output_counterexample:
  "run_adhoc_process paths_engine bin_bash (echo_request\<lparr>apr_root_output_directory := ''/''\<rparr>)
     = ([(INFO, ''generated'')],
        Inr \<lparr>process_result = \<lparr>pr_stdout = ''generated'', pr_stderr = [],
                                pr_output_digest = [''src/app/out.txt'']\<rparr>,
             adjusted_digest = [''src/app/out.txt'']\<rparr>)
   \<and> parse_relative_directory (apr_working_directory echo_request)
         (RelAddress (apr_address echo_request)) = ''src/app''"
  by (simp add: run_adhoc_process_def paths_engine_def strict_conversion_def
      prepare_adhoc_process_def output_at_build_root_def echo_request_def app_address_def
      parse_relative_directory_def os_path_join_def startswith_def endswith_def
      log_process_output_def log_on_error_def decode_def Let_def remove_prefix_paths_def
      remove_prefix_path_def directory_prefix_def)

text \<open>
  Claim C9, amended. For every completed adhoc process the adjusted digest is the raw output
  digest with one prefix removed by the engine. The prefix is the resolved working directory
  when \<open>root_output_directory\<close> is \<^verbatim>\<open>.\<close>, \<^verbatim>\<open>os.path.join\<close> of the resolved working directory and
  \<open>x\<close> when it is \<^verbatim>\<open>./x\<close>, the rest of the string when it starts with the separator, and the
  string itself otherwise. With prefix removal as the spec describes it: for \<^verbatim>\<open>.\<close>, relative
  declared output files and a raw digest holding exactly the output files of the prepared
  process, the adjusted digest holds exactly the declared output files; for \<^verbatim>\<open>/\<close> the
  adjusted digest is the raw digest, working-directory prefix included.
\<close>

theorem run_adhoc_process_adjusted_digest:
  assumes "run_adhoc_process engine bash request = (log, Inr result)"
    and "wd = parse_relative_directory (apr_working_directory request)
           (RelAddress (apr_address request))"
    and "raw = pr_output_digest (process_result result)"
  shows "(apr_root_output_directory request = ''.'' \<longrightarrow>
            adjusted_digest result = remove_prefix engine raw wd)
     \<and> (\<forall>x. apr_root_output_directory request = ''./'' @ x \<longrightarrow>
            adjusted_digest result = remove_prefix engine raw (os_path_join wd x))
     \<and> (\<forall>s. apr_root_output_directory request = ''/'' @ s \<longrightarrow>
            adjusted_digest result = remove_prefix engine raw s)
     \<and> (apr_root_output_directory request \<noteq> ''.''
          \<and> \<not> startswith (apr_root_output_directory request) ''./''
          \<and> \<not> startswith (apr_root_output_directory request) ''/'' \<longrightarrow>
            adjusted_digest result
              = remove_prefix engine raw (apr_root_output_directory request))
     \<and> (remove_prefix engine = remove_prefix_paths
          \<and> apr_root_output_directory request = ''.''
          \<and> (\<forall>f \<in> set (apr_output_files request). \<not> startswith f ''/'')
          \<and> raw = proc_output_files (prepare_adhoc_process engine request bash) \<longrightarrow>
            adjusted_digest result = apr_output_files request)
     \<and> (remove_prefix engine = remove_prefix_paths
          \<and> apr_root_output_directory request = ''/'' \<longrightarrow>
            adjusted_digest result = raw)"
proof -
  note adj = run_adhoc_process_adjusted [OF assms(1), folded assms(2) assms(3)]
  have c1: "apr_root_output_directory request = ''.'' \<longrightarrow>
      adjusted_digest result = remove_prefix engine raw wd"
    using adj by (simp add: parse_relative_directory_def)
  have c2: "\<forall>x. apr_root_output_directory request = ''./'' @ x \<longrightarrow>
      adjusted_digest result = remove_prefix engine raw (os_path_join wd x)"
    using adj by (simp add: parse_relative_directory_def startswith_def)
  have c3: "\<forall>s. apr_root_output_directory request = ''/'' @ s \<longrightarrow>
      adjusted_digest result = remove_prefix engine raw s"
    using adj by (simp add: parse_relative_directory_def startswith_def)
  have c4: "apr_root_output_directory request \<noteq> ''.''
        \<and> \<not> startswith (apr_root_output_directory request) ''./''
        \<and> \<not> startswith (apr_root_output_directory request) ''/'' \<longrightarrow>
      adjusted_digest result = remove_prefix engine raw (apr_root_output_directory request)"
    using adj by (simp add: parse_relative_directory_def)
  have c5: "remove_prefix engine = remove_prefix_paths
        \<and> apr_root_output_directory request = ''.''
        \<and> (\<forall>f \<in> set (apr_output_files request). \<not> startswith f ''/'')
        \<and> raw = proc_output_files (prepare_adhoc_process engine request bash) \<longrightarrow>
      adjusted_digest result = apr_output_files request"
  proof (intro impI, elim conjE)
    assume rp: "remove_prefix engine = remove_prefix_paths"
      and dot: "apr_root_output_directory request = ''.''"
      and rel: "\<forall>f \<in> set (apr_output_files request). \<not> startswith f ''/''"
      and raw: "raw = proc_output_files (prepare_adhoc_process engine request bash)"
    have a: "adjusted_digest result = remove_prefix_paths raw wd"
      using c1 dot rp by simp
    show "adjusted_digest result = apr_output_files request"
    proof (cases "wd = []")
      case True
      then have "raw = apr_output_files request"
        using raw assms(2) by (simp add: prepare_adhoc_process_output_files Let_def)
      with a True show ?thesis by (simp add: remove_prefix_paths_empty)
    next
      case False
      then have "raw = map (os_path_join wd) (apr_output_files request)"
        using raw assms(2) by (simp add: prepare_adhoc_process_output_files Let_def)
      with a rel show ?thesis by (simp add: remove_prefix_paths_join)
    qed
  qed
  have c6: "remove_prefix engine = remove_prefix_paths
        \<and> apr_root_output_directory request = ''/'' \<longrightarrow> adjusted_digest result = raw"
    using c3 by (simp add: remove_prefix_paths_empty)
  from c1 c2 c3 c4 c5 c6 show ?thesis by (intro conjI)
qed

text \<open>
  Witness for the amended C9: working directory and root output directory \<^verbatim>\<open>.\<close> at
  \<^verbatim>\<open>src/app\<close>; the raw output \<^verbatim>\<open>src/app/out.txt\<close> is returned as \<^verbatim>\<open>out.txt\<close>.
\<close>

theorem run_adhoc_process_adjusted_digest_witness:
  "run_adhoc_process paths_engine bin_bash echo_request
     = ([(INFO, ''generated'')],
        Inr \<lparr>process_result = \<lparr>pr_stdout = ''generated'', pr_stderr = [],
                                pr_output_digest = [''src/app/out.txt'']\<rparr>,
             adjusted_digest = [''out.txt'']\<rparr>)"
proof -
  have ex: "execute paths_engine (prepare_adhoc_process paths_engine echo_request bin_bash)
      = Inr exit0_result"
    by (simp add: paths_engine_def exit0_result_def prepare_echo_request_output_files)
  have conv: "to_process_result paths_engine exit0_result (apr_description echo_request)
      = Inr \<lparr>pr_stdout = ''generated'', pr_stderr = [],
             pr_output_digest = [''src/app/out.txt'']\<rparr>"
    by (simp add: paths_engine_def exit0_result_def strict_conversion_def)
  have lp: "log_process_output (apr_log_output echo_request)
        \<lparr>pr_stdout = ''generated'', pr_stderr = [],
          pr_output_digest = [''src/app/out.txt'']\<rparr>
      = ([(INFO, ''generated'')], None)"
    by (simp add: echo_request_def log_process_output_def decode_def)
  have lo: "log_on_error echo_request (fpr_exit_code exit0_result) = []"
    by (simp add: echo_request_def exit0_result_def log_on_error_def)
  have run: "\<exists>adj. run_adhoc_process paths_engine bin_bash echo_request
     = ([(INFO, ''generated'')],
        Inr \<lparr>process_result = \<lparr>pr_stdout = ''generated'', pr_stderr = [],
                                pr_output_digest = [''src/app/out.txt'']\<rparr>,
             adjusted_digest = adj\<rparr>)"
    by (simp add: run_adhoc_process_def Let_def ex conv lp lo)
  then obtain adj where run': "run_adhoc_process paths_engine bin_bash echo_request
     = ([(INFO, ''generated'')],
        Inr \<lparr>process_result = \<lparr>pr_stdout = ''generated'', pr_stderr = [],
                                pr_output_digest = [''src/app/out.txt'']\<rparr>,
             adjusted_digest = adj\<rparr>)" ..
  have wd: "''src/app'' = parse_relative_directory (apr_working_directory echo_request)
           (RelAddress (apr_address echo_request))"
    by (simp add: echo_request_def app_address_def parse_relative_directory_def)
  have raw: "[''src/app/out.txt''] = pr_output_digest (process_result
      \<lparr>process_result = \<lparr>pr_stdout = ''generated'', pr_stderr = [],
                                pr_output_digest = [''src/app/out.txt'']\<rparr>,
             adjusted_digest = adj\<rparr>)"
    by simp
  note t = run_adhoc_process_adjusted_digest [OF run' wd raw]
  have c5: "remove_prefix paths_engine = remove_prefix_paths
        \<and> apr_root_output_directory echo_request = ''.''
        \<and> (\<forall>f \<in> set (apr_output_files echo_request). \<not> startswith f ''/'')
        \<and> [''src/app/out.txt'']
            = proc_output_files (prepare_adhoc_process paths_engine echo_request bin_bash) \<longrightarrow>
      adjusted_digest \<lparr>process_result = \<lparr>pr_stdout = ''generated'', pr_stderr = [],
                                pr_output_digest = [''src/app/out.txt'']\<rparr>,
             adjusted_digest = adj\<rparr> = apr_output_files echo_request"
    by (rule conjunct1 [OF conjunct2 [OF conjunct2 [OF conjunct2 [OF conjunct2 [OF t]]]]])
  have hyp: "remove_prefix paths_engine = remove_prefix_paths
        \<and> apr_root_output_directory echo_request = ''.''
        \<and> (\<forall>f \<in> set (apr_output_files echo_request). \<not> startswith f ''/'')
        \<and> [''src/app/out.txt'']
            = proc_output_files (prepare_adhoc_process paths_engine echo_request bin_bash)"
    by (simp add: paths_engine_def echo_request_def startswith_def
        prepare_echo_request_output_files [unfolded echo_request_def])
  have "adj = [''out.txt'']"
    using mp [OF c5 hyp] by (simp add: echo_request_def)
  with run' show ?thesis by simp
qed

end
